theory Spec2Isabelle
  imports Main "HOL-Library.Word"
begin

unbundle bit_operations_syntax

section \<open>ueberzug/process.py: locating the pty slave of a process\<close>

text \<open>
  The module reads \<^verbatim>\<open>/proc/<pid>/stat\<close> and \<^verbatim>\<open>/proc/tty/drivers\<close>, decodes the minor
  device number packed into \<^verbatim>\<open>tty_nr\<close>, and looks for a device node whose \<^verbatim>\<open>st_rdev\<close>
  equals \<^verbatim>\<open>tty_nr\<close>, walking up to two parents.

  Conventions of the embedding:
  \<^item> Python \<^verbatim>\<open>bytes\<close> are \<^typ>\<open>string\<close> (a list of 8-bit characters). A \<^verbatim>\<open>str\<close> obtained by
    \<^verbatim>\<open>bytes.decode()\<close> is represented by its UTF-8 bytes, which are also the bytes a
    path is handed to the operating system as (UTF-8 file-system encoding).
  \<^item> Python integers are \<^typ>\<open>int\<close>.
  \<^item> A raised exception is \<open>Inl e\<close> of a result \<open>error + 'a\<close>; the value \<^verbatim>\<open>None\<close> that
    \<^verbatim>\<open>get_pty_slave\<close> returns is \<open>Inr None\<close>.
  \<^item> The file system is a read-only environment \<open>fs\<close>; the program's own state (the
    \<^verbatim>\<open>lru_cache\<close> of \<^verbatim>\<open>get_pty_slave_folders\<close>, and the sequence of system calls made so
    far) is passed explicitly.
  \<^item> The interpreter's limits (recursion depth, the digit limit of \<^verbatim>\<open>int\<close> conversions)
    are not part of the model.
\<close>

subsection \<open>Exceptions\<close>

datatype error =
    FileNotFoundError
  | PermissionError
  | OSError
  | AttributeError
  | KeyError
  | ValueError
  | UnicodeDecodeError

subsection \<open>The fragment of \<^verbatim>\<open>re\<close> the module uses, on bytes\<close>

text \<open>
  Character sets: \<^verbatim>\<open>.\<close> (no DOTALL flag: anything but a newline), \<^verbatim>\<open>\d\<close> and \<^verbatim>\<open>\S\<close> in a
  bytes pattern (ASCII only), a literal, a bracket set such as \<^verbatim>\<open>[-+]\<close>, and the union
  of two sets, which stands for an alternation of two one-character branches such as
  \<^verbatim>\<open>(\S| )\<close>.
\<close>

datatype cset = Dot | Digit | NonSpace | Lit char | OneOf string | Union cset cset

definition is_space :: "char \<Rightarrow> bool" where
  "is_space c \<longleftrightarrow> c \<in> set [CHR '' '', CHR 0x09, CHR 0x0A, CHR 0x0B, CHR 0x0C, CHR 0x0D]"

definition is_digit :: "char \<Rightarrow> bool" where
  "is_digit c \<longleftrightarrow> c \<in> set ''0123456789''"

fun cmatch :: "cset \<Rightarrow> char \<Rightarrow> bool" where
  "cmatch Dot c = (c \<noteq> CHR 0x0A)"
| "cmatch Digit c = is_digit c"
| "cmatch NonSpace c = (\<not> is_space c)"
| "cmatch (Lit l) c = (c = l)"
| "cmatch (OneOf ls) c = (c \<in> set ls)"
| "cmatch (Union a b) c = (cmatch a c \<or> cmatch b c)"

text \<open>
  A pattern is a sequence of tokens: \<^verbatim>\<open>^\<close>, one character of a set, a repetition of a set
  (\<open>Rep c lo hi greedy\<close> is \<^verbatim>\<open>c{lo,hi}\<close>, with \<open>hi = None\<close> for no upper bound and
  \<open>greedy = False\<close> for the lazy form \<^verbatim>\<open>c{lo,hi}?\<close>), and the opening and closing of a
  named group.
\<close>

datatype tok = Bol | One cset | Rep cset nat "nat option" bool | GOpen string | GClose

type_synonym groups = "(string \<times> string) list"

definition feed :: "string \<Rightarrow> groups \<Rightarrow> groups" where
  "feed x opens = map (\<lambda>(n, a). (n, a @ x)) opens"

text \<open>
  The repetition counts a backtracking matcher tries, in the order it tries them:
  a greedy repetition starts from the longest run, a lazy one from the shortest.
\<close>

definition rep_counts :: "cset \<Rightarrow> nat \<Rightarrow> nat option \<Rightarrow> bool \<Rightarrow> string \<Rightarrow> nat list" where
  "rep_counts c lo hi greedy s =
     (let avail = length (takeWhile (cmatch c) s);
          top = (case hi of None \<Rightarrow> avail | Some h \<Rightarrow> min h avail);
          ks = [lo..<Suc top]
      in if greedy then rev ks else ks)"

fun first_some :: "'a option list \<Rightarrow> 'a option" where
  "first_some [] = None"
| "first_some (None # xs) = first_some xs"
| "first_some (Some r # xs) = Some r"

text \<open>
  \<open>rmatch ts pos s opens caps\<close> matches the tokens \<open>ts\<close> against the input \<open>s\<close> that
  remains at offset \<open>pos\<close>; \<open>opens\<close> holds the groups that are open with the bytes they
  have taken so far, \<open>caps\<close> the groups that are closed. The result is the first match in
  backtracking order.
\<close>

fun rmatch :: "tok list \<Rightarrow> nat \<Rightarrow> string \<Rightarrow> groups \<Rightarrow> groups \<Rightarrow> groups option" where
  "rmatch [] pos s opens caps = Some caps"
| "rmatch (Bol # ts) pos s opens caps =
     (if pos = 0 then rmatch ts pos s opens caps else None)"
| "rmatch (One c # ts) pos s opens caps =
     (case s of
        [] \<Rightarrow> None
      | x # xs \<Rightarrow> if cmatch c x then rmatch ts (Suc pos) xs (feed [x] opens) caps else None)"
| "rmatch (Rep c lo hi greedy # ts) pos s opens caps =
     first_some
       (map (\<lambda>k. rmatch ts (pos + k) (drop k s) (feed (take k s) opens) caps)
            (rep_counts c lo hi greedy s))"
| "rmatch (GOpen n # ts) pos s opens caps = rmatch ts pos s ((n, []) # opens) caps"
| "rmatch (GClose # ts) pos s opens caps =
     (case opens of
        [] \<Rightarrow> None
      | g # rest \<Rightarrow> rmatch ts pos s rest (g # caps))"

text \<open>\<^verbatim>\<open>re.search\<close>: the first start offset, from 0 to the length of the input, with a match.\<close>

definition re_search :: "tok list \<Rightarrow> string \<Rightarrow> groups option" where
  "re_search ts inp =
     first_some (map (\<lambda>i. rmatch ts i (drop i inp) [] []) [0..<Suc (length inp)])"

text \<open>\<^verbatim>\<open>re.search(...).groupdict()\<close>: \<^verbatim>\<open>None\<close> has no attribute \<^verbatim>\<open>groupdict\<close>.\<close>

definition search_groupdict :: "tok list \<Rightarrow> string \<Rightarrow> error + groups" where
  "search_groupdict ts inp =
     (case re_search ts inp of None \<Rightarrow> Inl AttributeError | Some m \<Rightarrow> Inr m)"

text \<open>\<^verbatim>\<open>d[key]\<close> on the dictionary of groups.\<close>

definition getitem :: "groups \<Rightarrow> string \<Rightarrow> error + string" where
  "getitem d k = (case map_of d k of None \<Rightarrow> Inl KeyError | Some v \<Rightarrow> Inr v)"

subsection \<open>\<^verbatim>\<open>int(bytes)\<close> and the formatting of an integer\<close>

text \<open>
  \<^verbatim>\<open>int(b)\<close> in base 10: surrounding ASCII whitespace is stripped, one sign is allowed,
  and the digits may be grouped by single underscores.
\<close>

definition digit_val :: "char \<Rightarrow> nat" where
  "digit_val c = of_char c - 48"

definition digits_val :: "string \<Rightarrow> nat" where
  "digits_val ds = foldl (\<lambda>acc c. 10 * acc + digit_val c) 0 ds"

fun digits_ok :: "string \<Rightarrow> bool" where
  "digits_ok [] = False"
| "digits_ok [c] = is_digit c"
| "digits_ok (c # d # r) =
     (is_digit c \<and> (if d = CHR ''_'' then digits_ok r else digits_ok (d # r)))"

definition strip :: "string \<Rightarrow> string" where
  "strip s = rev (dropWhile is_space (rev (dropWhile is_space s)))"

definition py_int :: "string \<Rightarrow> error + int" where
  "py_int b =
     (let t = strip b;
          (neg, body) =
            (case t of
               [] \<Rightarrow> (False, [])
             | c # r \<Rightarrow>
                 if c = CHR ''-'' then (True, r)
                 else if c = CHR ''+'' then (False, r)
                 else (False, t))
      in if digits_ok body
         then (let v = int (digits_val (filter (\<lambda>c. c \<noteq> CHR ''_'') body))
               in Inr (if neg then - v else v))
         else Inl ValueError)"

text \<open>The decimal text of an integer, as an f-string writes it.\<close>

definition digit_char :: "nat \<Rightarrow> char" where
  "digit_char d = ''0123456789'' ! d"

fun str_nat :: "nat \<Rightarrow> string" where
  "str_nat n =
     (if n < 10 then [digit_char n]
      else str_nat (n div 10) @ [digit_char (n mod 10)])"

declare str_nat.simps [simp del]

definition str_int :: "int \<Rightarrow> string" where
  "str_int i = (if i < 0 then CHR ''-'' # str_nat (nat (- i)) else str_nat (nat i))"

subsection \<open>\<^verbatim>\<open>calculate_minor_device_number\<close>\<close>

text \<open>\<^verbatim>\<open>a >> n\<close> raises \<^verbatim>\<open>ValueError\<close> for a negative shift count.\<close>

definition py_rshift :: "int \<Rightarrow> int \<Rightarrow> error + int" where
  "py_rshift a n = (if n < 0 then Inl ValueError else Inr (drop_bit (nat n) a))"

definition calculate_minor_device_number :: "int \<Rightarrow> error + int" where
  "calculate_minor_device_number tty_nr =
     (let TTY_NR_BITS = 32 :: int;
          FIRST_BITS = 8 :: int;
          SHIFTED_BITS = 12 :: int;
          FIRST_BITS_MASK = 0xFF :: int;
          SHIFTED_BITS_MASK = 0xFFF00000 :: int
      in case py_rshift (tty_nr AND SHIFTED_BITS_MASK)
                        (TTY_NR_BITS - SHIFTED_BITS - FIRST_BITS) of
           Inl e \<Rightarrow> Inl e
         | Inr shifted \<Rightarrow> Inr ((tty_nr AND FIRST_BITS_MASK) + shifted))"

subsection \<open>\<^verbatim>\<open>get_info\<close>: the pattern of \<^verbatim>\<open>/proc/<pid>/stat\<close>\<close>

definition MAX_PROCESS_NAME_LENGTH :: nat where
  "MAX_PROCESS_NAME_LENGTH = 15"

text \<open>\<^verbatim>\<open>(?P<name>[-+]?\d+)\<close>\<close>

definition int_group :: "string \<Rightarrow> tok list" where
  "int_group name = [GOpen name, Rep (OneOf ''-+'') 0 (Some 1) True, Rep Digit 1 None True, GClose]"

definition stat_re :: "tok list" where
  "stat_re =
     [Bol] @ int_group ''pid'' @ [One (Lit CHR '' '')] @
     [One (Lit CHR ''(''), GOpen ''comm'', Rep Dot 0 (Some MAX_PROCESS_NAME_LENGTH) True, GClose,
      One (Lit CHR '')''), One (Lit CHR '' '')] @
     [GOpen ''state'', One Dot, GClose, One (Lit CHR '' '')] @
     int_group ''ppid'' @ [One (Lit CHR '' '')] @
     int_group ''pgrp'' @ [One (Lit CHR '' '')] @
     int_group ''session'' @ [One (Lit CHR '' '')] @
     int_group ''tty_nr''"

subsection \<open>The operating system, as the module sees it\<close>

text \<open>
  \<open>files\<close> answers \<^verbatim>\<open>open(path, 'rb')\<close> followed by reading the file to its end, \<open>rdevs\<close>
  answers \<^verbatim>\<open>os.stat(path).st_rdev\<close>; either may raise. The program cannot change them.
  Every such call is recorded, in order, in \<open>calls\<close>.
\<close>

record fs =
  files :: "string \<Rightarrow> error + string"
  rdevs :: "string \<Rightarrow> error + int"

datatype syscall = Open string | Stat string

record pstate =
  cache :: "string list option"
  calls :: "syscall list"

definition open_read :: "fs \<Rightarrow> string \<Rightarrow> pstate \<Rightarrow> (error + string) \<times> pstate" where
  "open_read env path st = (files env path, st\<lparr>calls := calls st @ [Open path]\<rparr>)"

definition os_stat_rdev :: "fs \<Rightarrow> string \<Rightarrow> pstate \<Rightarrow> (error + int) \<times> pstate" where
  "os_stat_rdev env path st = (rdevs env path, st\<lparr>calls := calls st @ [Stat path]\<rparr>)"

subsection \<open>\<^verbatim>\<open>get_info\<close>\<close>

definition stat_path :: "int \<Rightarrow> string" where
  "stat_path pid = ''/proc/'' @ str_int pid @ ''/stat''"

definition get_info :: "fs \<Rightarrow> int \<Rightarrow> pstate \<Rightarrow> (error + groups) \<times> pstate" where
  "get_info env pid st =
     (case open_read env (stat_path pid) st of
        (Inl e, st') \<Rightarrow> (Inl e, st')
      | (Inr data, st') \<Rightarrow> (search_groupdict stat_re data, st'))"

text \<open>\<^verbatim>\<open>int(process_info[key])\<close>\<close>

definition int_item :: "groups \<Rightarrow> string \<Rightarrow> error + int" where
  "int_item d k = (case getitem d k of Inl e \<Rightarrow> Inl e | Inr b \<Rightarrow> py_int b)"

definition get_parent_pid :: "fs \<Rightarrow> int \<Rightarrow> pstate \<Rightarrow> (error + int) \<times> pstate" where
  "get_parent_pid env pid st =
     (case get_info env pid st of
        (Inl e, st') \<Rightarrow> (Inl e, st')
      | (Inr process_info, st') \<Rightarrow> (int_item process_info ''ppid'', st'))"

subsection \<open>\<^verbatim>\<open>get_pty_slave_folders\<close>\<close>

text \<open>
  \<^verbatim>\<open>^(?P<name>(\S| )+?) +(?P<path>/dev/\S+) \<close>: the inner group \<^verbatim>\<open>(\S| )\<close> has no name
  and does not show in \<^verbatim>\<open>groupdict()\<close>.
\<close>

definition drivers_re :: "tok list" where
  "drivers_re =
     [Bol, GOpen ''name'', Rep (Union NonSpace (Lit CHR '' '')) 1 None False, GClose,
      Rep (Lit CHR '' '') 1 None True,
      GOpen ''path'', One (Lit CHR ''/''), One (Lit CHR ''d''), One (Lit CHR ''e''),
      One (Lit CHR ''v''), One (Lit CHR ''/''), Rep NonSpace 1 None True, GClose,
      One (Lit CHR '' '')]"

text \<open>Iterating over a binary file yields its lines, each with its newline.\<close>

fun file_lines_from :: "string \<Rightarrow> string \<Rightarrow> string list" where
  "file_lines_from cur [] = (if cur = [] then [] else [cur])"
| "file_lines_from cur (c # cs) =
     (if c = CHR 0x0A then (cur @ [c]) # file_lines_from [] cs
      else file_lines_from (cur @ [c]) cs)"

definition file_lines :: "string \<Rightarrow> string list" where
  "file_lines data = file_lines_from [] data"

text \<open>\<^verbatim>\<open>bytes.decode()\<close>: strict UTF-8.\<close>

definition cont_byte :: "nat \<Rightarrow> bool" where
  "cont_byte b \<longleftrightarrow> 0x80 \<le> b \<and> b \<le> 0xBF"

fun utf8_valid :: "nat list \<Rightarrow> bool" where
  "utf8_valid [] = True"
| "utf8_valid (b # bs) =
     (if b < 0x80 then utf8_valid bs
      else if 0xC2 \<le> b \<and> b \<le> 0xDF then
        (case bs of c1 # r \<Rightarrow> cont_byte c1 \<and> utf8_valid r | _ \<Rightarrow> False)
      else if 0xE0 \<le> b \<and> b \<le> 0xEF then
        (case bs of
           c1 # c2 # r \<Rightarrow>
             cont_byte c1 \<and> cont_byte c2 \<and> (if b = 0xE0 then 0xA0 \<le> c1 else True) \<and>
             (if b = 0xED then c1 \<le> 0x9F else True) \<and> utf8_valid r
         | _ \<Rightarrow> False)
      else if 0xF0 \<le> b \<and> b \<le> 0xF4 then
        (case bs of
           c1 # c2 # c3 # r \<Rightarrow>
             cont_byte c1 \<and> cont_byte c2 \<and> cont_byte c3 \<and> (if b = 0xF0 then 0x90 \<le> c1 else True) \<and>
             (if b = 0xF4 then c1 \<le> 0x8F else True) \<and> utf8_valid r
         | _ \<Rightarrow> False)
      else False)"

definition decode :: "string \<Rightarrow> error + string" where
  "decode b = (if utf8_valid (map of_char b) then Inr b else Inl UnicodeDecodeError)"

text \<open>The loop over the lines of \<^verbatim>\<open>/proc/tty/drivers\<close>.\<close>

fun collect_paths :: "string list \<Rightarrow> string list \<Rightarrow> error + string list" where
  "collect_paths [] paths = Inr paths"
| "collect_paths (line # lines) paths =
     (case search_groupdict drivers_re line of
        Inl e \<Rightarrow> Inl e
      | Inr driver \<Rightarrow>
          (case getitem driver ''name'' of
             Inl e \<Rightarrow> Inl e
           | Inr name \<Rightarrow>
               if name = ''pty_slave'' then
                 (case getitem driver ''path'' of
                    Inl e \<Rightarrow> Inl e
                  | Inr p \<Rightarrow>
                      (case decode p of
                         Inl e \<Rightarrow> Inl e
                       | Inr d \<Rightarrow> collect_paths lines (paths @ [d])))
               else collect_paths lines paths))"

text \<open>The body of the function, without the cache.\<close>

definition read_pty_slave_folders :: "fs \<Rightarrow> pstate \<Rightarrow> (error + string list) \<times> pstate" where
  "read_pty_slave_folders env st =
     (case open_read env ''/proc/tty/drivers'' st of
        (Inl e, st') \<Rightarrow> (Inl e, st')
      | (Inr data, st') \<Rightarrow> (collect_paths (file_lines data) [], st'))"

text \<open>
  \<^verbatim>\<open>@functools.lru_cache()\<close> on a function without arguments: one entry, never evicted;
  a call that raises stores nothing.
\<close>

definition get_pty_slave_folders :: "fs \<Rightarrow> pstate \<Rightarrow> (error + string list) \<times> pstate" where
  "get_pty_slave_folders env st =
     (case cache st of
        Some paths \<Rightarrow> (Inr paths, st)
      | None \<Rightarrow>
          (case read_pty_slave_folders env st of
             (Inl e, st') \<Rightarrow> (Inl e, st')
           | (Inr paths, st') \<Rightarrow> (Inr paths, st'\<lparr>cache := Some paths\<rparr>)))"

subsection \<open>\<^verbatim>\<open>get_pty_slave\<close>\<close>

definition device_path_of :: "string \<Rightarrow> int \<Rightarrow> string" where
  "device_path_of folder minor_device_number = folder @ ''/'' @ str_int minor_device_number"

text \<open>The \<^verbatim>\<open>for folder in pty_slave_folders\<close> loop; \<open>Inr None\<close> when it runs to its end.\<close>

fun scan_folders ::
  "fs \<Rightarrow> int \<Rightarrow> int \<Rightarrow> string list \<Rightarrow> pstate \<Rightarrow> (error + string option) \<times> pstate" where
  "scan_folders env tty_nr minor [] st = (Inr None, st)"
| "scan_folders env tty_nr minor (folder # rest) st =
     (let device_path = device_path_of folder minor
      in case os_stat_rdev env device_path st of
           (Inr rdev, st') \<Rightarrow>
             if tty_nr = rdev then (Inr (Some device_path), st')
             else scan_folders env tty_nr minor rest st'
         | (Inl e, st') \<Rightarrow>
             if e = FileNotFoundError then scan_folders env tty_nr minor rest st'
             else (Inl e, st'))"

text \<open>
  The recursion on the parent has no bound of its own when it starts above depth 2, so the
  function is partial: \<open>None\<close> is a call that does not return.
\<close>

partial_function (option) get_pty_slave ::
  "fs \<Rightarrow> int \<Rightarrow> int \<Rightarrow> pstate \<Rightarrow> ((error + string option) \<times> pstate) option" where
  "get_pty_slave env pid parent_search_depth st =
     (case get_pty_slave_folders env st of
        (Inl e, st1) \<Rightarrow> Some (Inl e, st1)
      | (Inr pty_slave_folders, st1) \<Rightarrow>
     (case get_info env pid st1 of
        (Inl e, st2) \<Rightarrow> Some (Inl e, st2)
      | (Inr process_info, st2) \<Rightarrow>
     (case int_item process_info ''tty_nr'' of
        Inl e \<Rightarrow> Some (Inl e, st2)
      | Inr tty_nr \<Rightarrow>
     (case calculate_minor_device_number tty_nr of
        Inl e \<Rightarrow> Some (Inl e, st2)
      | Inr minor_device_number \<Rightarrow>
     (case scan_folders env tty_nr minor_device_number pty_slave_folders st2 of
        (Inl e, st3) \<Rightarrow> Some (Inl e, st3)
      | (Inr (Some device_path), st3) \<Rightarrow> Some (Inr (Some device_path), st3)
      | (Inr None, st3) \<Rightarrow>
          if parent_search_depth = 2 then Some (Inr None, st3)
          else
            (case int_item process_info ''ppid'' of
               Inl e \<Rightarrow> Some (Inl e, st3)
             | Inr ppid \<Rightarrow> get_pty_slave env ppid (parent_search_depth + 1) st3))))))"

declare get_pty_slave.simps [code]

subsection \<open>Notions used to state the properties\<close>

text \<open>
  What \<^verbatim>\<open>get_info\<close> returns for a process, apart from the record of the call.
\<close>

definition record_of :: "fs \<Rightarrow> int \<Rightarrow> error + groups" where
  "record_of env pid =
     (case files env (stat_path pid) of
        Inl e \<Rightarrow> Inl e
      | Inr data \<Rightarrow> search_groupdict stat_re data)"

text \<open>
  A candidate path that the scan passes over: it does not exist, or it is a node of
  another device.
\<close>

definition passed_over :: "fs \<Rightarrow> int \<Rightarrow> string \<Rightarrow> bool" where
  "passed_over env tty_nr path =
     (case rdevs env path of
        Inl e \<Rightarrow> e = FileNotFoundError
      | Inr rdev \<Rightarrow> rdev \<noteq> tty_nr)"

text \<open>The candidate paths of a record, one for each folder, in the order of the folders.\<close>

definition candidates :: "string list \<Rightarrow> groups \<Rightarrow> string list" where
  "candidates folders info =
     (case int_item info ''tty_nr'' of
        Inl e \<Rightarrow> []
      | Inr tty_nr \<Rightarrow>
          (case calculate_minor_device_number tty_nr of
             Inl e \<Rightarrow> []
           | Inr minor \<Rightarrow> map (\<lambda>folder. device_path_of folder minor) folders))"

text \<open>A record whose terminal identifier is readable and none of whose candidates matches.\<close>

definition unmatched :: "fs \<Rightarrow> string list \<Rightarrow> groups \<Rightarrow> bool" where
  "unmatched env folders info =
     (case int_item info ''tty_nr'' of
        Inl e \<Rightarrow> False
      | Inr tty_nr \<Rightarrow> list_all (passed_over env tty_nr) (candidates folders info))"

text \<open>
  A status record written from its fields, and the text of an integer field: an optional
  sign and at least one digit.
\<close>

definition int_literal :: "string \<Rightarrow> bool" where
  "int_literal s =
     (case s of
        [] \<Rightarrow> False
      | c # r \<Rightarrow>
          if c \<in> set ''-+'' then r \<noteq> [] \<and> list_all is_digit r
          else list_all is_digit s)"

definition stat_line ::
  "string \<Rightarrow> string \<Rightarrow> char \<Rightarrow> string \<Rightarrow> string \<Rightarrow> string \<Rightarrow> string \<Rightarrow> string \<Rightarrow> string" where
  "stat_line pid_s comm state ppid_s pgrp_s session_s tty_s rest =
     pid_s @ '' ('' @ comm @ '') '' @ [state] @ '' '' @ ppid_s @ '' '' @ pgrp_s @ '' '' @
     session_s @ '' '' @ tty_s @ rest"

text \<open>The paths opened so far, in order.\<close>

fun opened_paths :: "syscall list \<Rightarrow> string list" where
  "opened_paths [] = []"
| "opened_paths (Open p # cs) = p # opened_paths cs"
| "opened_paths (Stat p # cs) = opened_paths cs"

subsection \<open>An example system\<close>

text \<open>
  A driver table with the Unix98 and the legacy pty drivers, and these processes: init
  (1), a daemon (50) and its worker (80) without a terminal, a shell (60) and an
  editor (70) on \<^verbatim>\<open>/dev/pts/1\<close> (major 136, minor 1: \<^verbatim>\<open>tty_nr\<close> 34817), a process
  (75) on a legacy pty (major 3, minor 1: \<^verbatim>\<open>tty_nr\<close> 769) and another (76) on the legacy
  pty with minor 2 (\<^verbatim>\<open>tty_nr\<close> 770), a process (85) whose parent (84) has exited, and
  a process (90) whose record has another layout. The node \<^verbatim>\<open>/dev/pts/0\<close> exists too,
  \<^verbatim>\<open>/dev/ttyp/1\<close> may not be looked at, and \<^verbatim>\<open>/dev/ttyp/2\<close> is the node of the legacy
  pty with minor 2.
\<close>

definition example_drivers :: string where
  "example_drivers =
     ''/dev/tty             /dev/tty        5       0 system:/dev/tty'' @ [CHR 0x0A] @
     ''pty_slave            /dev/pts      136 0-1048575 pty:slave'' @ [CHR 0x0A] @
     ''pty_master           /dev/ptm      128 0-1048575 pty:master'' @ [CHR 0x0A] @
     ''pty_slave            /dev/ttyp       3 0-255 pty:slave'' @ [CHR 0x0A]"

definition example_files :: "string \<Rightarrow> error + string" where
  "example_files p =
     (if p = ''/proc/tty/drivers'' then Inr example_drivers
      else if p = ''/proc/1/stat'' then Inr ''1 (init) S 0 1 1 0 -1 4194560 15''
      else if p = ''/proc/50/stat'' then Inr ''50 (daemon) S 1 50 50 0 -1 4194560 7''
      else if p = ''/proc/80/stat'' then Inr ''80 (worker) S 50 50 50 0 -1 4194368 3''
      else if p = ''/proc/60/stat'' then Inr ''60 (bash) S 50 60 60 34817 70 4194304 9''
      else if p = ''/proc/70/stat'' then Inr ''70 (vim) S 60 70 60 34817 70 4194304 2''
      else if p = ''/proc/75/stat'' then Inr ''75 (legacy) S 60 75 60 769 75 4194304 1''
      else if p = ''/proc/76/stat'' then Inr ''76 (old) S 60 76 60 770 76 4194304 1''
      else if p = ''/proc/85/stat'' then Inr ''85 (orphan) S 84 85 85 0 -1 4194368 4''
      else if p = ''/proc/90/stat'' then Inr ''not a status record''
      else Inl FileNotFoundError)"

definition example_rdevs :: "string \<Rightarrow> error + int" where
  "example_rdevs p =
     (if p = ''/dev/pts/0'' then Inr 34816
      else if p = ''/dev/pts/1'' then Inr 34817
      else if p = ''/dev/ttyp/1'' then Inl PermissionError
      else if p = ''/dev/ttyp/2'' then Inr 770
      else Inl FileNotFoundError)"

definition example_fs :: fs where
  "example_fs = \<lparr>files = example_files, rdevs = example_rdevs\<rparr>"

text \<open>The same system after the driver table has changed.\<close>

definition changed_fs :: fs where
  "changed_fs =
     \<lparr>files = (\<lambda>p. if p = ''/proc/tty/drivers'' then Inr [] else example_files p),
      rdevs = example_rdevs\<rparr>"

definition initial :: pstate where
  "initial = \<lparr>cache = None, calls = []\<rparr>"

section \<open>Properties\<close>

subsection \<open>The minor device number\<close>

lemma and_low_byte: "(i::int) AND 0xFF = i mod 256"
proof -
  have "i AND mask 8 = take_bit 8 i"
    by (simp add: take_bit_eq_mask)
  then show ?thesis
    by (simp add: take_bit_eq_mod mask_eq_exp_minus_1)
qed

lemma high_mask_push: "(0xFFF00000::int) = push_bit 20 (mask 12)"
  by (simp add: mask_eq_exp_minus_1 push_bit_eq_mult)

lemma and_high_shifted:
  "drop_bit 12 ((i::int) AND 0xFFF00000) = 256 * ((i div 2 ^ 20) mod 2 ^ 12)"
proof -
  have "i AND push_bit 20 (mask 12) = push_bit 20 (take_bit 12 (drop_bit 20 i))"
    by (rule bit_eqI) (auto simp: bit_simps)
  then have "drop_bit 12 (i AND 0xFFF00000) =
             drop_bit 12 (push_bit 20 (take_bit 12 (drop_bit 20 i)))"
    by (simp only: high_mask_push)
  also have "\<dots> = push_bit 8 (take_bit 12 (drop_bit 20 i))"
    by (simp add: drop_bit_push_bit)
  finally show ?thesis
    by (simp add: push_bit_eq_mult take_bit_eq_mod drop_bit_eq_div)
qed

lemma minor_returns:
  "calculate_minor_device_number i = Inr ((i AND 0xFF) + drop_bit 12 (i AND 0xFFF00000))"
  by (simp add: calculate_minor_device_number_def py_rshift_def)

text \<open>
  C1. For every terminal identifier in the 32-bit range, the function returns (it does
  not raise) the low byte plus the top twelve bits moved down by twelve places; in
  arithmetic, the low byte plus 256 times the identifier divided by \<open>2 ^ 20\<close>.
\<close>

theorem minor_device_number_formula:
  assumes "0 \<le> i" and "i < 2 ^ 32"
  shows "calculate_minor_device_number i =
           Inr ((i AND 0xFF) + drop_bit 12 (i AND 0xFFF00000)) \<and>
         (i AND 0xFF) + drop_bit 12 (i AND 0xFFF00000) = i mod 256 + 256 * (i div 2 ^ 20)"
proof -
  have "i div 2 ^ 20 < 2 ^ 12"
    using assms by (simp add: div_less_iff_less_mult)
  moreover have "0 \<le> i div 2 ^ 20"
    using assms by simp
  ultimately have "(i div 2 ^ 20) mod 2 ^ 12 = i div 2 ^ 20"
    by simp
  then have "(i AND 0xFF) + drop_bit 12 (i AND 0xFFF00000) = i mod 256 + 256 * (i div 2 ^ 20)"
    by (simp only: and_low_byte and_high_shifted)
  then show ?thesis
    using minor_returns [of i] by blast
qed

theorem minor_device_number_formula_witness:
  "(0::int) \<le> 0x00108801 \<and> (0x00108801::int) < 2 ^ 32 \<and>
   calculate_minor_device_number 0x00108801 = Inr (0x00108801 mod 256 + 256 * (0x00108801 div 2 ^ 20)) \<and>
   calculate_minor_device_number 0x00108801 = Inr 257"
  using minor_device_number_formula [of "0x00108801"] by simp

text \<open>
  C2, as stated, fails: the identifier \<open>0x00088801\<close> has no bit set at position 20 or
  above, so the function does not return 137.
\<close>

theorem decode_0x88801_is_not_137:
  "calculate_minor_device_number 0x00088801 \<noteq> Inr 137"
  by (simp add: calculate_minor_device_number_def py_rshift_def)

text \<open>
  C2, amended. For the identifier \<open>0x00088801\<close> only the low byte \<open>0x01\<close> is left: the
  function returns \<open>0x01 + 0x00 = 1\<close>.
\<close>

theorem decode_0x88801_is_1:
  "calculate_minor_device_number 0x00088801 = Inr (0x01 + 0x00) \<and>
   calculate_minor_device_number 0x00088801 = Inr 1"
  by (simp add: calculate_minor_device_number_def py_rshift_def)

subsection \<open>Parsing the status record\<close>

lemmas py_int_eval =
  py_int_def strip_def is_space_def is_digit_def digits_val_def digit_val_def

lemmas str_int_eval = str_int_def str_nat.simps digit_char_def

lemma fst_get_info:
  "fst (get_info env pid st) =
     (case files env (stat_path pid) of
        Inl e \<Rightarrow> Inl e
      | Inr data \<Rightarrow> search_groupdict stat_re data)"
  by (simp add: get_info_def open_read_def split: sum.splits)

lemma snd_get_info:
  "snd (get_info env pid st) = st\<lparr>calls := calls st @ [Open (stat_path pid)]\<rparr>"
  by (simp add: get_info_def open_read_def split: sum.splits)

lemma stat_path_42: "stat_path 42 = ''/proc/42/stat''"
  by (simp add: stat_path_def str_int_eval)

subsection \<open>The pattern of the status record on a record written from its fields\<close>

lemma first_some_skip:
  "\<forall>x\<in>set pre. g x = None \<Longrightarrow> first_some (map g (pre @ rest)) = first_some (map g rest)"
  by (induction pre) simp_all

lemma greedy_order:
  assumes "lo \<le> n" and "n \<le> u"
  shows "rev [lo..<Suc u] = rev [Suc n..<Suc u] @ n # rev [lo..<n]"
proof -
  have "[lo..<n + (Suc u - n)] = [lo..<n] @ [n..<n + (Suc u - n)]"
    by (rule upt_add_eq_append [OF assms(1)])
  then have "[lo..<Suc u] = [lo..<n] @ [n..<Suc u]"
    using assms(2) by simp
  also have "[n..<Suc u] = n # [Suc n..<Suc u]"
    using assms by (simp add: upt_conv_Cons)
  finally show ?thesis by simp
qed

lemma rmatch_rep_greedy:
  assumes "lo \<le> n"
      and "n \<le> length (takeWhile (cmatch c) s)"
      and "case hi of None \<Rightarrow> True | Some h \<Rightarrow> n \<le> h"
      and "\<forall>k. n < k \<and> k \<le> length (takeWhile (cmatch c) s) \<and>
             (case hi of None \<Rightarrow> True | Some h \<Rightarrow> k \<le> h) \<longrightarrow>
             rmatch ts (pos + k) (drop k s) (feed (take k s) opens) caps = None"
      and "rmatch ts (pos + n) (drop n s) (feed (take n s) opens) caps = Some v"
  shows "rmatch (Rep c lo hi True # ts) pos s opens caps = Some v"
proof -
  let ?avail = "length (takeWhile (cmatch c) s)"
  let ?top = "case hi of None \<Rightarrow> ?avail | Some h \<Rightarrow> min h ?avail"
  let ?g = "\<lambda>k. rmatch ts (pos + k) (drop k s) (feed (take k s) opens) caps"
  have top: "n \<le> ?top"
    using assms(2,3) by (simp split: option.splits)
  have later: "\<forall>k\<in>set (rev [Suc n..<Suc ?top]). ?g k = None"
    using assms(4) by (auto split: option.splits)
  have "rmatch (Rep c lo hi True # ts) pos s opens caps =
      first_some (map ?g (rev [lo..<Suc ?top]))"
    by (simp add: rep_counts_def Let_def)
  also have "\<dots> = first_some (map ?g (rev [Suc n..<Suc ?top] @ n # rev [lo..<n]))"
    by (simp only: greedy_order [OF assms(1) top])
  also have "\<dots> = first_some (map ?g (n # rev [lo..<n]))"
    by (rule first_some_skip [OF later])
  also have "\<dots> = Some v"
    by (simp add: assms(5) del: rmatch.simps)
  finally show ?thesis .
qed

lemma takeWhile_run:
  "list_all P f \<Longrightarrow> takeWhile P r = [] \<Longrightarrow> takeWhile P (f @ r) = f"
  by (simp add: list_all_iff)

lemma rmatch_digits:
  assumes "ds \<noteq> []" and "list_all is_digit ds" and "takeWhile is_digit r = []"
      and "\<And>p. rmatch ts p r (feed ds opens) caps = Some v"
  shows "rmatch (Rep Digit 1 None True # ts) pos (ds @ r) opens caps = Some v"
proof (rule rmatch_rep_greedy [where n = "length ds"])
  have run: "takeWhile (cmatch Digit) (ds @ r) = ds"
    using takeWhile_run [OF assms(2,3)] by (simp add: cmatch.simps [abs_def])
  show "1 \<le> length ds"
    using assms(1) by (cases ds) simp_all
  show "length ds \<le> length (takeWhile (cmatch Digit) (ds @ r))"
    by (simp add: run)
  show "case None of None \<Rightarrow> True | Some h \<Rightarrow> length ds \<le> h"
    by simp
  show "\<forall>k. length ds < k \<and> k \<le> length (takeWhile (cmatch Digit) (ds @ r)) \<and>
           (case None of None \<Rightarrow> True | Some h \<Rightarrow> k \<le> h) \<longrightarrow>
           rmatch ts (pos + k) (drop k (ds @ r)) (feed (take k (ds @ r)) opens) caps = None"
    by (auto simp: run simp del: rmatch.simps)
  show "rmatch ts (pos + length ds) (drop (length ds) (ds @ r))
          (feed (take (length ds) (ds @ r)) opens) caps = Some v"
    by (simp add: assms(4) del: rmatch.simps)
qed

lemma rmatch_sign_absent:
  assumes "takeWhile (cmatch (OneOf ''-+'')) s = []"
      and "\<And>p. rmatch ts p s opens caps = Some v"
  shows "rmatch (Rep (OneOf ''-+'') 0 (Some 1) True # ts) pos s opens caps = Some v"
proof (rule rmatch_rep_greedy [where n = 0])
  show "(0::nat) \<le> 0" by simp
  show "0 \<le> length (takeWhile (cmatch (OneOf ''-+'')) s)"
    by simp
  show "case Some 1 of None \<Rightarrow> True | Some h \<Rightarrow> (0::nat) \<le> h"
    by simp
  show "\<forall>k. 0 < k \<and> k \<le> length (takeWhile (cmatch (OneOf ''-+'')) s) \<and>
          (case Some 1 of None \<Rightarrow> True | Some h \<Rightarrow> k \<le> h) \<longrightarrow>
          rmatch ts (pos + k) (drop k s) (feed (take k s) opens) caps = None"
    by (simp add: assms(1) del: rmatch.simps)
  show "rmatch ts (pos + 0) (drop 0 s) (feed (take 0 s) opens) caps = Some v"
    using assms(2) [of pos] by (simp add: feed_def del: rmatch.simps)
qed

lemma digit_not_sign: "is_digit c \<Longrightarrow> c \<notin> set ''-+''"
  by (auto simp: is_digit_def)

lemma digit_not_paren: "is_digit c \<Longrightarrow> c \<noteq> CHR '')''"
  by (auto simp: is_digit_def)

lemma feed_Nil [simp]: "feed [] opens = opens"
  by (induction opens) (auto simp: feed_def)

lemma rmatch_sign_present:
  assumes "c \<in> set ''-+''"
      and "\<And>p. rmatch ts p s (feed [c] opens) caps = Some v"
  shows "rmatch (Rep (OneOf ''-+'') 0 (Some 1) True # ts) pos (c # s) opens caps = Some v"
proof (rule rmatch_rep_greedy [where n = 1])
  show "(0::nat) \<le> 1" by simp
  show "1 \<le> length (takeWhile (cmatch (OneOf ''-+'')) (c # s))"
    using assms(1) by simp
  show "case Some 1 of None \<Rightarrow> True | Some h \<Rightarrow> (1::nat) \<le> h"
    by simp
  show "\<forall>k. 1 < k \<and> k \<le> length (takeWhile (cmatch (OneOf ''-+'')) (c # s)) \<and>
          (case Some 1 of None \<Rightarrow> True | Some h \<Rightarrow> k \<le> h) \<longrightarrow>
          rmatch ts (pos + k) (drop k (c # s)) (feed (take k (c # s)) opens) caps = None"
  proof (intro allI impI)
    fix k
    assume "1 < k \<and> k \<le> length (takeWhile (cmatch (OneOf ''-+'')) (c # s)) \<and>
          (case Some 1 of None \<Rightarrow> True | Some h \<Rightarrow> k \<le> h)"
    then have "1 < k \<and> k \<le> 1"
      by (simp del: takeWhile.simps)
    then show "rmatch ts (pos + k) (drop k (c # s)) (feed (take k (c # s)) opens) caps = None"
      by arith
  qed
  show "rmatch ts (pos + 1) (drop 1 (c # s)) (feed (take 1 (c # s)) opens) caps = Some v"
    using assms(2) [of "pos + 1"] by (simp del: rmatch.simps)
qed

lemma rmatch_int_group:
  assumes "int_literal f" and "takeWhile is_digit r = []"
      and "\<And>p. rmatch ts p r [] ((name, f) # caps) = Some v"
  shows "rmatch (int_group name @ ts) pos (f @ r) [] caps = Some v"
proof -
  from assms(1) obtain c ds where f: "f = c # ds"
    by (cases f) (simp_all add: int_literal_def)
  have "rmatch (Rep (OneOf ''-+'') 0 (Some 1) True # Rep Digit 1 None True # GClose # ts)
      pos (c # ds @ r) [(name, [])] caps = Some v"
  proof (cases "c \<in> set ''-+''")
    case True
    with assms(1) f have ds: "ds \<noteq> []" "list_all is_digit ds"
      by (simp_all add: int_literal_def)
    have close: "\<And>p. rmatch (GClose # ts) p r (feed ds [(name, [c])]) caps = Some v"
      using assms(3) by (simp add: feed_def f)
    have "\<And>p. rmatch (Rep Digit 1 None True # GClose # ts) p (ds @ r) [(name, [c])] caps
        = Some v"
      by (rule rmatch_digits [OF ds assms(2) close])
    then have "\<And>p. rmatch (Rep Digit 1 None True # GClose # ts) p (ds @ r)
        (feed [c] [(name, [])]) caps = Some v"
      by (simp add: feed_def del: rmatch.simps)
    then show ?thesis
      by (rule rmatch_sign_present [OF True])
  next
    case False
    with assms(1) f have ds: "list_all is_digit (c # ds)"
      by (simp add: int_literal_def)
    have close: "\<And>p. rmatch (GClose # ts) p r (feed (c # ds) [(name, [])]) caps = Some v"
      using assms(3) by (simp add: feed_def f)
    have "\<And>p. rmatch (Rep Digit 1 None True # GClose # ts) p ((c # ds) @ r)
        [(name, [])] caps = Some v"
      by (rule rmatch_digits [OF _ ds assms(2) close]) simp
    then have digits: "\<And>p. rmatch (Rep Digit 1 None True # GClose # ts) p (c # ds @ r)
        [(name, [])] caps = Some v"
      by (simp del: rmatch.simps)
    have "takeWhile (cmatch (OneOf ''-+'')) (c # ds @ r) = []"
      using False by simp
    then show ?thesis
      using digits by (rule rmatch_sign_absent)
  qed
  then show ?thesis
    by (simp add: int_group_def f del: rmatch.simps(4))
qed

lemma int_literal_no_paren: "int_literal f \<Longrightarrow> CHR '')'' \<notin> set f"
  by (cases f) (auto simp: int_literal_def list_all_iff dest: digit_not_paren split: if_splits)

lemma rmatch_int_group_last:
  assumes "int_literal f" and "takeWhile is_digit r = []"
  shows "rmatch (int_group name) pos (f @ r) [] caps = Some ((name, f) # caps)"
  using rmatch_int_group [OF assms, of "[]" name caps "(name, f) # caps" pos] by simp

lemma rmatch_lit_fail:
  "(case s of [] \<Rightarrow> True | x # xs \<Rightarrow> x \<noteq> l) \<Longrightarrow>
   rmatch (One (Lit l) # ts) pos s opens caps = None"
  by (cases s) simp_all

lemma window_head:
  assumes "c \<notin> set (take m xs)" and "j < m"
  shows "case drop j xs of [] \<Rightarrow> True | y # ys \<Rightarrow> y \<noteq> c"
proof (cases "j < length xs")
  case True
  then have "drop j xs = xs ! j # drop (Suc j) xs"
    by (simp add: Cons_nth_drop_Suc)
  moreover have "xs ! j \<in> set (take m xs)"
    using True assms(2) by (metis in_set_conv_nth length_take min_less_iff_conj nth_take)
  ultimately show ?thesis
    using assms(1) by auto
next
  case False
  then show ?thesis by simp
qed

lemma notin_take_append:
  assumes "c \<notin> set xs" and "c \<notin> set (take m ys)" and "k \<le> m"
  shows "c \<notin> set (take k (xs @ ys))"
proof -
  have "set (take (k - length xs) ys) \<subseteq> set (take m ys)"
    using assms(3) by (intro set_take_subset_set_take) simp
  moreover have "set (take k xs) \<subseteq> set xs"
    by (rule set_take_subset)
  ultimately show ?thesis
    using assms(1,2) by auto
qed

lemma rmatch_comm:
  assumes "length comm \<le> MAX_PROCESS_NAME_LENGTH"
      and "CHR 0x0A \<notin> set comm"
      and "CHR '')'' \<notin> set (take (MAX_PROCESS_NAME_LENGTH - length comm) t)"
      and "\<And>p. rmatch ts p t [] ((name, comm) # caps) = Some v"
  shows "rmatch (Rep Dot 0 (Some MAX_PROCESS_NAME_LENGTH) True # GClose #
                 One (Lit CHR '')'') # ts)
           pos (comm @ CHR '')'' # t) [(name, [])] caps = Some v"
proof (rule rmatch_rep_greedy [where n = "length comm"])
  let ?s = "comm @ CHR '')'' # t"
  have run: "takeWhile (cmatch Dot) ?s = comm @ takeWhile (cmatch Dot) (CHR '')'' # t)"
    using assms(2) by (intro takeWhile_append2) auto
  show "0 \<le> length comm" by simp
  show "length comm \<le> length (takeWhile (cmatch Dot) ?s)"
    by (simp only: run length_append)
  show "case Some MAX_PROCESS_NAME_LENGTH of None \<Rightarrow> True | Some h \<Rightarrow> length comm \<le> h"
    using assms(1) by simp
  show "\<forall>k. length comm < k \<and> k \<le> length (takeWhile (cmatch Dot) ?s) \<and>
          (case Some MAX_PROCESS_NAME_LENGTH of None \<Rightarrow> True | Some h \<Rightarrow> k \<le> h) \<longrightarrow>
          rmatch (GClose # One (Lit CHR '')'') # ts) (pos + k) (drop k ?s)
            (feed (take k ?s) [(name, [])]) caps = None"
  proof (intro allI impI)
    fix k
    assume k: "length comm < k \<and> k \<le> length (takeWhile (cmatch Dot) ?s) \<and>
          (case Some MAX_PROCESS_NAME_LENGTH of None \<Rightarrow> True | Some h \<Rightarrow> k \<le> h)"
    then have bounds: "length comm < k" "k \<le> MAX_PROCESS_NAME_LENGTH"
      by simp_all
    then have "k - length comm - 1 < MAX_PROCESS_NAME_LENGTH - length comm"
      by arith
    from window_head [OF assms(3) this]
    have "case drop (k - length comm - 1) t of [] \<Rightarrow> True | y # ys \<Rightarrow> y \<noteq> CHR '')''" .
    moreover have "drop k ?s = drop (k - length comm - 1) t"
      using bounds(1) by (cases "k - length comm") simp_all
    ultimately have "rmatch (One (Lit CHR '')'') # ts) (pos + k) (drop k ?s) []
        ((name, take k ?s) # caps) = None"
      by (simp only: rmatch_lit_fail)
    then show "rmatch (GClose # One (Lit CHR '')'') # ts) (pos + k) (drop k ?s)
        (feed (take k ?s) [(name, [])]) caps = None"
      by (simp add: feed_def del: rmatch.simps(3))
  qed
  show "rmatch (GClose # One (Lit CHR '')'') # ts) (pos + length comm)
          (drop (length comm) ?s) (feed (take (length comm) ?s) [(name, [])]) caps = Some v"
    using assms(4) by (simp add: feed_def)
qed

lemma stat_re_on_stat_line:
  assumes lits: "int_literal pid_s" "int_literal ppid_s" "int_literal pgrp_s"
        "int_literal session_s" "int_literal tty_s"
      and comm: "length comm \<le> MAX_PROCESS_NAME_LENGTH" "CHR 0x0A \<notin> set comm"
      and state: "state \<noteq> CHR 0x0A" "state \<noteq> CHR '')''"
      and rest: "CHR '')'' \<notin> set (take MAX_PROCESS_NAME_LENGTH rest)"
        "takeWhile is_digit rest = []"
  shows "re_search stat_re (stat_line pid_s comm state ppid_s pgrp_s session_s tty_s rest) =
           Some [(''tty_nr'', tty_s), (''session'', session_s), (''pgrp'', pgrp_s),
                 (''ppid'', ppid_s), (''state'', [state]), (''comm'', comm), (''pid'', pid_s)]"
proof -
  let ?sp = "CHR '' ''"
  let ?c1 = "[(''pid'', pid_s)]"
  let ?c2 = "(''comm'', comm) # ?c1"
  let ?c3 = "(''state'', [state]) # ?c2"
  let ?c4 = "(''ppid'', ppid_s) # ?c3"
  let ?c5 = "(''pgrp'', pgrp_s) # ?c4"
  let ?c6 = "(''session'', session_s) # ?c5"
  let ?c7 = "(''tty_nr'', tty_s) # ?c6"
  let ?t7 = "int_group ''tty_nr''"
  let ?t6 = "int_group ''session'' @ One (Lit ?sp) # ?t7"
  let ?t5 = "int_group ''pgrp'' @ One (Lit ?sp) # ?t6"
  let ?t4 = "int_group ''ppid'' @ One (Lit ?sp) # ?t5"
  let ?t3 = "GOpen ''state'' # One Dot # GClose # One (Lit ?sp) # ?t4"
  let ?t2 = "One (Lit ?sp) # ?t3"
  let ?f4 = "ppid_s @ ?sp # pgrp_s @ ?sp # session_s @ ?sp # tty_s"
  let ?fields = "?sp # state # ?sp # ?f4"
  have sp: "\<And>r. takeWhile is_digit (?sp # r) = []"
    by (simp add: is_digit_def)
  have s7: "\<And>p. rmatch ?t7 p (tty_s @ rest) [] ?c6 = Some ?c7"
    by (rule rmatch_int_group_last [OF lits(5) rest(2)])
  have s6: "\<And>p. rmatch ?t6 p (session_s @ ?sp # tty_s @ rest) [] ?c5 = Some ?c7"
    by (rule rmatch_int_group [OF lits(4) sp]) (simp add: s7 feed_def)
  have s5: "\<And>p. rmatch ?t5 p (pgrp_s @ ?sp # session_s @ ?sp # tty_s @ rest) [] ?c4 = Some ?c7"
    by (rule rmatch_int_group [OF lits(3) sp]) (simp add: s6 feed_def)
  have s4: "\<And>p. rmatch ?t4 p
      (ppid_s @ ?sp # pgrp_s @ ?sp # session_s @ ?sp # tty_s @ rest) [] ?c3 = Some ?c7"
    by (rule rmatch_int_group [OF lits(2) sp]) (simp add: s5 feed_def)
  have s3: "\<And>p. rmatch ?t3 p
      (state # ?sp # ppid_s @ ?sp # pgrp_s @ ?sp # session_s @ ?sp # tty_s @ rest) [] ?c2
      = Some ?c7"
    using state(1) by (simp add: s4 feed_def)
  have s2: "\<And>p. rmatch ?t2 p (?fields @ rest) [] ?c2 = Some ?c7"
    using state(1) by (simp add: s4 feed_def)
  have "CHR '')'' \<notin> set ?fields"
    using state(2) lits(2-5) by (simp add: int_literal_no_paren)
  then have window:
    "CHR '')'' \<notin> set (take (MAX_PROCESS_NAME_LENGTH - length comm) (?fields @ rest))"
    using rest(1) by (rule notin_take_append) simp
  have s1: "\<And>p. rmatch (Rep Dot 0 (Some MAX_PROCESS_NAME_LENGTH) True # GClose #
        One (Lit CHR '')'') # ?t2) p (comm @ CHR '')'' # ?fields @ rest) [(''comm'', [])] ?c1
        = Some ?c7"
    by (rule rmatch_comm [OF comm window s2])
  have s0: "\<And>p. rmatch (One (Lit ?sp) # One (Lit CHR ''('') # GOpen ''comm'' #
        Rep Dot 0 (Some MAX_PROCESS_NAME_LENGTH) True # GClose # One (Lit CHR '')'') # ?t2) p
        (?sp # CHR ''('' # comm @ CHR '')'' # ?fields @ rest) [] ?c1 = Some ?c7"
    using s1 by (simp add: feed_def del: rmatch.simps(4))
  have line: "stat_line pid_s comm state ppid_s pgrp_s session_s tty_s rest =
      pid_s @ ?sp # CHR ''('' # comm @ CHR '')'' # ?fields @ rest"
    by (simp add: stat_line_def)
  have pattern: "stat_re = Bol # (int_group ''pid'' @ One (Lit ?sp) # One (Lit CHR ''('') #
      GOpen ''comm'' # Rep Dot 0 (Some MAX_PROCESS_NAME_LENGTH) True # GClose #
      One (Lit CHR '')'') # ?t2)"
    by (simp add: stat_re_def)
  have "rmatch (int_group ''pid'' @ One (Lit ?sp) # One (Lit CHR ''('') #
      GOpen ''comm'' # Rep Dot 0 (Some MAX_PROCESS_NAME_LENGTH) True # GClose #
      One (Lit CHR '')'') # ?t2) 0
      (pid_s @ ?sp # CHR ''('' # comm @ CHR '')'' # ?fields @ rest) [] [] = Some ?c7"
    by (rule rmatch_int_group [OF lits(1) sp s0])
  then have start: "rmatch stat_re 0
      (stat_line pid_s comm state ppid_s pgrp_s session_s tty_s rest) [] [] = Some ?c7"
    by (simp only: pattern line rmatch.simps(2) simp_thms if_True)
  have "[0..<Suc (length (stat_line pid_s comm state ppid_s pgrp_s session_s tty_s rest))] =
      0 # [Suc 0..<Suc (length (stat_line pid_s comm state ppid_s pgrp_s session_s tty_s rest))]"
    by (rule upt_conv_Cons) simp
  then show ?thesis
    by (simp only: re_search_def list.map drop_0 start first_some.simps)
qed

text \<open>
  C3. A status record written from its fields, whose command name has at most 15 bytes
  and no newline but may hold close-parens, spaces and text that reads like the fields
  after it, parses into exactly these fields: the name is taken whole and the state,
  parent, group, session and terminal identifier are not shifted. Only the first 15
  bytes after the terminal identifier are required to hold no close-paren; what comes
  later in the record can be anything.
\<close>

theorem get_info_parses_name_with_close_paren:
  assumes "files env (stat_path pid) =
             Inr (stat_line pid_s comm state ppid_s pgrp_s session_s tty_s rest)"
      and "int_literal pid_s" and "int_literal ppid_s" and "int_literal pgrp_s"
      and "int_literal session_s" and "int_literal tty_s"
      and "length comm \<le> MAX_PROCESS_NAME_LENGTH" and "CHR 0x0A \<notin> set comm"
      and "state \<noteq> CHR 0x0A" and "state \<noteq> CHR '')''"
      and "CHR '')'' \<notin> set (take MAX_PROCESS_NAME_LENGTH rest)"
      and "takeWhile is_digit rest = []"
  shows "\<exists>info.
           fst (get_info env pid st) = Inr info \<and>
           getitem info ''pid'' = Inr pid_s \<and>
           getitem info ''comm'' = Inr comm \<and>
           getitem info ''state'' = Inr [state] \<and>
           getitem info ''ppid'' = Inr ppid_s \<and>
           getitem info ''pgrp'' = Inr pgrp_s \<and>
           getitem info ''session'' = Inr session_s \<and>
           getitem info ''tty_nr'' = Inr tty_s"
proof -
  let ?info = "[(''tty_nr'', tty_s), (''session'', session_s), (''pgrp'', pgrp_s),
                (''ppid'', ppid_s), (''state'', [state]), (''comm'', comm), (''pid'', pid_s)]"
  have "re_search stat_re (stat_line pid_s comm state ppid_s pgrp_s session_s tty_s rest) =
      Some ?info"
    by (rule stat_re_on_stat_line [OF assms(2-12)])
  then have f0: "fst (get_info env pid st) = Inr ?info"
    by (simp add: fst_get_info assms(1) search_groupdict_def)
  have f1: "getitem ?info ''pid'' = Inr pid_s" by (simp add: getitem_def)
  have f2: "getitem ?info ''comm'' = Inr comm" by (simp add: getitem_def)
  have f3: "getitem ?info ''state'' = Inr [state]" by (simp add: getitem_def)
  have f4: "getitem ?info ''ppid'' = Inr ppid_s" by (simp add: getitem_def)
  have f5: "getitem ?info ''pgrp'' = Inr pgrp_s" by (simp add: getitem_def)
  have f6: "getitem ?info ''session'' = Inr session_s" by (simp add: getitem_def)
  have f7: "getitem ?info ''tty_nr'' = Inr tty_s" by (simp add: getitem_def)
  show ?thesis
    by (intro exI [of _ ?info] conjI f0 f1 f2 f3 f4 f5 f6 f7)
qed

theorem get_info_parses_name_with_close_paren_witness:
  "stat_line ''42'' ''my)cmd'' CHR ''S'' ''1'' ''42'' ''42'' ''34816'' [] =
     ''42 (my)cmd) S 1 42 42 34816'' \<and>
   (\<exists>info.
      fst (get_info
             \<lparr>files = (\<lambda>p. if p = ''/proc/42/stat'' then Inr ''42 (my)cmd) S 1 42 42 34816''
                            else Inl FileNotFoundError),
              rdevs = example_rdevs\<rparr> 42 initial) = Inr info \<and>
      int_item info ''pid'' = Inr 42 \<and>
      getitem info ''comm'' = Inr ''my)cmd'' \<and>
      getitem info ''state'' = Inr ''S'' \<and>
      int_item info ''ppid'' = Inr 1 \<and>
      int_item info ''pgrp'' = Inr 42 \<and>
      int_item info ''session'' = Inr 42 \<and>
      int_item info ''tty_nr'' = Inr 34816)"
proof -
  let ?env = "\<lparr>files = (\<lambda>p. if p = ''/proc/42/stat'' then Inr ''42 (my)cmd) S 1 42 42 34816''
                            else Inl FileNotFoundError),
               rdevs = example_rdevs\<rparr>"
  have line: "stat_line ''42'' ''my)cmd'' CHR ''S'' ''1'' ''42'' ''42'' ''34816'' [] =
      ''42 (my)cmd) S 1 42 42 34816''"
    by (simp add: stat_line_def)
  have opens: "files ?env (stat_path 42) =
      Inr (stat_line ''42'' ''my)cmd'' CHR ''S'' ''1'' ''42'' ''42'' ''34816'' [])"
    by (simp add: stat_path_42 line)
  have l42: "int_literal ''42''" by (simp add: int_literal_def is_digit_def)
  have l1: "int_literal ''1''" by (simp add: int_literal_def is_digit_def)
  have l34816: "int_literal ''34816''" by (simp add: int_literal_def is_digit_def)
  have len: "length ''my)cmd'' \<le> MAX_PROCESS_NAME_LENGTH"
    by (simp add: MAX_PROCESS_NAME_LENGTH_def)
  have nl: "CHR 0x0A \<notin> set ''my)cmd''" by simp
  have s1: "CHR ''S'' \<noteq> CHR 0x0A" by simp
  have s2: "CHR ''S'' \<noteq> CHR '')''" by simp
  have r1: "CHR '')'' \<notin> set (take MAX_PROCESS_NAME_LENGTH [])" by simp
  have r2: "takeWhile is_digit [] = []" by simp
  from get_info_parses_name_with_close_paren [OF opens l42 l1 l42 l42 l34816 len nl s1 s2 r1 r2,
      of initial]
  obtain info where info: "fst (get_info ?env 42 initial) = Inr info"
    and pid: "getitem info ''pid'' = Inr ''42''"
    and comm: "getitem info ''comm'' = Inr ''my)cmd''"
    and state: "getitem info ''state'' = Inr ''S''"
    and ppid: "getitem info ''ppid'' = Inr ''1''"
    and pgrp: "getitem info ''pgrp'' = Inr ''42''"
    and session: "getitem info ''session'' = Inr ''42''"
    and tty: "getitem info ''tty_nr'' = Inr ''34816''"
    by (elim exE conjE)
  have i42: "py_int ''42'' = Inr 42" by (simp add: py_int_eval)
  have i1: "py_int ''1'' = Inr 1" by (simp add: py_int_eval)
  have i34816: "py_int ''34816'' = Inr 34816" by (simp add: py_int_eval)
  have g1: "int_item info ''pid'' = Inr 42" by (simp add: int_item_def pid i42)
  have g4: "int_item info ''ppid'' = Inr 1" by (simp add: int_item_def ppid i1)
  have g5: "int_item info ''pgrp'' = Inr 42" by (simp add: int_item_def pgrp i42)
  have g6: "int_item info ''session'' = Inr 42" by (simp add: int_item_def session i42)
  have g7: "int_item info ''tty_nr'' = Inr 34816" by (simp add: int_item_def tty i34816)
  show ?thesis
    by (intro conjI exI [of _ info] line info g1 comm state g4 g5 g6 g7)
qed

text \<open>
  A name that reads like the fields after it: the capture is greedy and goes to the last
  close-paren within the bound, so the parent is 1, not 9.
\<close>

lemma name_that_reads_like_fields:
  "search_groupdict stat_re ''42 (a) S 9 9 9 9) S 1 42 42 34816'' =
     Inr [(''tty_nr'', ''34816''), (''session'', ''42''), (''pgrp'', ''42''), (''ppid'', ''1''),
          (''state'', ''S''), (''comm'', ''a) S 9 9 9 9''), (''pid'', ''42'')]"
  by code_simp

text \<open>
  Text that reads like a status record beyond the bound does not move the fields: the
  capture cannot reach it.
\<close>

lemma later_text_is_out_of_reach:
  "search_groupdict stat_re ''42 (sh) S 1 42 42 34816 0 0 0 (x) S 7 7 7 7'' =
     Inr [(''tty_nr'', ''34816''), (''session'', ''42''), (''pgrp'', ''42''), (''ppid'', ''1''),
          (''state'', ''S''), (''comm'', ''sh''), (''pid'', ''42'')]"
  by code_simp

subsection \<open>The effect of the calls on the state\<close>

lemma get_info_eq:
  "get_info env pid st = (record_of env pid, st\<lparr>calls := calls st @ [Open (stat_path pid)]\<rparr>)"
  by (simp add: get_info_def open_read_def record_of_def split: sum.splits)

lemma folders_cache_hit:
  "cache st = Some fo \<Longrightarrow> get_pty_slave_folders env st = (Inr fo, st)"
  by (simp add: get_pty_slave_folders_def)

lemma folders_result_cached:
  "get_pty_slave_folders env st = (Inr fo, st1) \<Longrightarrow> cache st1 = Some fo"
  by (auto simp: get_pty_slave_folders_def split: option.splits prod.splits sum.splits)

lemma opened_paths_append:
  "opened_paths (xs @ ys) = opened_paths xs @ opened_paths ys"
  by (induction xs rule: opened_paths.induct) simp_all

lemma opened_paths_stats: "opened_paths (map Stat ps) = []"
  by (induction ps) simp_all

subsection \<open>The cache of the directory table\<close>

text \<open>
  C8. Once a call of \<^verbatim>\<open>get_pty_slave_folders\<close> has returned a list, every later call
  (in a state with that cache) returns the same list without another system call,
  whatever the file system holds by then.
\<close>

theorem folders_computed_once:
  assumes "get_pty_slave_folders env st = (Inr paths, st1)"
      and "cache st2 = cache st1"
  shows "get_pty_slave_folders env' st2 = (Inr paths, st2)"
  using assms folders_result_cached [of env st paths st1]
  by (simp add: folders_cache_hit)

lemma example_collect_paths:
  "collect_paths (file_lines example_drivers) [] = Inr [''/dev/pts'', ''/dev/ttyp'']"
  by code_simp

lemma example_folders:
  "get_pty_slave_folders example_fs initial =
     (Inr [''/dev/pts'', ''/dev/ttyp''],
      \<lparr>cache = Some [''/dev/pts'', ''/dev/ttyp''], calls = [Open ''/proc/tty/drivers'']\<rparr>)"
  by (simp add: get_pty_slave_folders_def read_pty_slave_folders_def open_read_def
        example_fs_def example_files_def initial_def example_collect_paths)

theorem folders_computed_once_witness:
  "get_pty_slave_folders example_fs initial =
     (Inr [''/dev/pts'', ''/dev/ttyp''],
      \<lparr>cache = Some [''/dev/pts'', ''/dev/ttyp''], calls = [Open ''/proc/tty/drivers'']\<rparr>) \<and>
   files changed_fs ''/proc/tty/drivers'' \<noteq> files example_fs ''/proc/tty/drivers'' \<and>
   get_pty_slave_folders changed_fs
     \<lparr>cache = Some [''/dev/pts'', ''/dev/ttyp''], calls = [Open ''/proc/tty/drivers'']\<rparr> =
     (Inr [''/dev/pts'', ''/dev/ttyp''],
      \<lparr>cache = Some [''/dev/pts'', ''/dev/ttyp''], calls = [Open ''/proc/tty/drivers'']\<rparr>)"
proof -
  have differs: "files changed_fs ''/proc/tty/drivers'' \<noteq> files example_fs ''/proc/tty/drivers''"
    by (simp add: changed_fs_def example_fs_def example_files_def example_drivers_def)
  from folders_computed_once [OF example_folders, of
      "\<lparr>cache = Some [''/dev/pts'', ''/dev/ttyp''], calls = [Open ''/proc/tty/drivers'']\<rparr>"
      changed_fs]
  have "get_pty_slave_folders changed_fs
     \<lparr>cache = Some [''/dev/pts'', ''/dev/ttyp''], calls = [Open ''/proc/tty/drivers'']\<rparr> =
     (Inr [''/dev/pts'', ''/dev/ttyp''],
      \<lparr>cache = Some [''/dev/pts'', ''/dev/ttyp''], calls = [Open ''/proc/tty/drivers'']\<rparr>)"
    by simp
  with example_folders differs show ?thesis
    by (intro conjI)
qed

subsection \<open>The match scan\<close>

lemma scan_prefix:
  "\<forall>g\<in>set pre. passed_over env t (device_path_of g m) \<Longrightarrow>
   scan_folders env t m (pre @ rest) st =
     scan_folders env t m rest
       (st\<lparr>calls := calls st @ map (\<lambda>g. Stat (device_path_of g m)) pre\<rparr>)"
proof (induction pre arbitrary: st)
  case Nil
  then show ?case by simp
next
  case (Cons g pre)
  from Cons.prems have "passed_over env t (device_path_of g m)"
    and rest: "\<forall>g\<in>set pre. passed_over env t (device_path_of g m)"
    by simp_all
  then show ?case
    using Cons.IH [OF rest]
    by (auto simp: passed_over_def os_stat_rdev_def Let_def split: sum.splits)
qed

lemma scan_found:
  "scan_folders env t m fo st = (Inr (Some p), st') \<Longrightarrow>
   \<exists>pre f post. fo = pre @ f # post \<and> p = device_path_of f m \<and> rdevs env p = Inr t \<and>
     (\<forall>g\<in>set pre. passed_over env t (device_path_of g m))"
proof (induction fo arbitrary: st)
  case Nil
  then show ?case by simp
next
  case (Cons g fo)
  let ?st = "st\<lparr>calls := calls st @ [Stat (device_path_of g m)]\<rparr>"
  show ?case
  proof (cases "rdevs env (device_path_of g m) = Inr t")
    case True
    with Cons.prems have "p = device_path_of g m"
      by (simp add: os_stat_rdev_def Let_def)
    with True have "g # fo = [] @ g # fo \<and> p = device_path_of g m \<and> rdevs env p = Inr t \<and>
        (\<forall>h\<in>set []. passed_over env t (device_path_of h m))"
      by simp
    then show ?thesis by blast
  next
    case False
    with Cons.prems have over: "passed_over env t (device_path_of g m)"
      and "scan_folders env t m fo ?st = (Inr (Some p), st')"
      by (auto simp: passed_over_def os_stat_rdev_def Let_def split: sum.splits if_splits)
    from Cons.IH [OF this(2)] obtain pre f post where
      "fo = pre @ f # post" "p = device_path_of f m" "rdevs env p = Inr t"
      "\<forall>g\<in>set pre. passed_over env t (device_path_of g m)"
      by blast
    with over have "g # fo = (g # pre) @ f # post \<and> p = device_path_of f m \<and>
        rdevs env p = Inr t \<and> (\<forall>h\<in>set (g # pre). passed_over env t (device_path_of h m))"
      by simp
    then show ?thesis by blast
  qed
qed

lemma scan_accept:
  assumes "fo = pre @ f # post"
      and "rdevs env (device_path_of f m) = Inr t"
      and "\<forall>g\<in>set pre. passed_over env t (device_path_of g m)"
  shows "scan_folders env t m fo st =
           (Inr (Some (device_path_of f m)),
            st\<lparr>calls := calls st @ map (\<lambda>g. Stat (device_path_of g m)) (pre @ [f])\<rparr>)"
  using assms(2) by (simp add: assms(1) scan_prefix [OF assms(3)] os_stat_rdev_def Let_def)

lemma scan_abort:
  assumes "fo = pre @ f # post"
      and "rdevs env (device_path_of f m) = Inl e"
      and "e \<noteq> FileNotFoundError"
      and "\<forall>g\<in>set pre. passed_over env t (device_path_of g m)"
  shows "scan_folders env t m fo st =
           (Inl e, st\<lparr>calls := calls st @ map (\<lambda>g. Stat (device_path_of g m)) (pre @ [f])\<rparr>)"
  using assms(2,3) by (simp add: assms(1) scan_prefix [OF assms(4)] os_stat_rdev_def Let_def)

lemma scan_none:
  assumes "\<forall>g\<in>set fo. passed_over env t (device_path_of g m)"
  shows "scan_folders env t m fo st =
           (Inr None, st\<lparr>calls := calls st @ map (\<lambda>g. Stat (device_path_of g m)) fo\<rparr>)"
  using scan_prefix [OF assms, of "[]" st] by simp

lemma scan_fallen_through:
  "scan_folders env t m fo st = (Inr None, st') \<Longrightarrow>
   \<forall>g\<in>set fo. passed_over env t (device_path_of g m)"
proof (induction fo arbitrary: st)
  case Nil
  then show ?case by simp
next
  case (Cons g fo)
  let ?st = "st\<lparr>calls := calls st @ [Stat (device_path_of g m)]\<rparr>"
  from Cons.prems have over: "passed_over env t (device_path_of g m)"
    and "scan_folders env t m fo ?st = (Inr None, st')"
    by (auto simp: passed_over_def os_stat_rdev_def Let_def split: sum.splits if_splits)
  from Cons.IH [OF this(2)] over show ?case
    by simp
qed

lemma device_path_1: "device_path_of folder 1 = folder @ ''/1''"
  by (simp add: device_path_of_def str_int_eval)

lemma device_path_0: "device_path_of folder 0 = folder @ ''/0''"
  by (simp add: device_path_of_def str_int_eval)

subsection \<open>One call of \<^verbatim>\<open>get_pty_slave\<close>\<close>

lemma get_pty_slave_folders_raise:
  assumes "get_pty_slave_folders env st = (Inl e, st1)"
  shows "get_pty_slave env pid d st = Some (Inl e, st1)"
  by (subst get_pty_slave.simps) (simp add: assms)

lemma get_pty_slave_record_raise:
  assumes "get_pty_slave_folders env st = (Inr fo, st1)"
      and "record_of env pid = Inl e"
  shows "get_pty_slave env pid d st =
           Some (Inl e, st1\<lparr>calls := calls st1 @ [Open (stat_path pid)]\<rparr>)"
  by (subst get_pty_slave.simps) (simp add: assms get_info_eq)

lemma get_pty_slave_level:
  assumes "get_pty_slave_folders env st = (Inr fo, st1)"
      and "record_of env pid = Inr info"
      and "int_item info ''tty_nr'' = Inr t"
      and "calculate_minor_device_number t = Inr m"
  shows "get_pty_slave env pid d st =
     (case scan_folders env t m fo (st1\<lparr>calls := calls st1 @ [Open (stat_path pid)]\<rparr>) of
        (Inl e, st3) \<Rightarrow> Some (Inl e, st3)
      | (Inr (Some p), st3) \<Rightarrow> Some (Inr (Some p), st3)
      | (Inr None, st3) \<Rightarrow>
          if d = 2 then Some (Inr None, st3)
          else
            (case int_item info ''ppid'' of
               Inl e \<Rightarrow> Some (Inl e, st3)
             | Inr ppid \<Rightarrow> get_pty_slave env ppid (d + 1) st3))"
  by (subst get_pty_slave.simps) (simp add: assms get_info_eq)

lemma unmatched_level:
  assumes "get_pty_slave_folders env st = (Inr fo, st1)"
      and "record_of env pid = Inr info"
      and "unmatched env fo info"
  shows "get_pty_slave env pid d st =
     (if d = 2
      then Some (Inr None,
                 st1\<lparr>calls := calls st1 @ Open (stat_path pid) # map Stat (candidates fo info)\<rparr>)
      else
        (case int_item info ''ppid'' of
           Inl e \<Rightarrow>
             Some (Inl e,
                   st1\<lparr>calls := calls st1 @ Open (stat_path pid) # map Stat (candidates fo info)\<rparr>)
         | Inr ppid \<Rightarrow>
             get_pty_slave env ppid (d + 1)
               (st1\<lparr>calls := calls st1 @ Open (stat_path pid) # map Stat (candidates fo info)\<rparr>)))"
proof -
  from assms(3) obtain t where t: "int_item info ''tty_nr'' = Inr t"
    and over: "list_all (passed_over env t) (candidates fo info)"
    by (auto simp: unmatched_def split: sum.splits)
  let ?m = "(t AND 0xFF) + drop_bit 12 (t AND 0xFFF00000)"
  have cand: "candidates fo info = map (\<lambda>g. device_path_of g ?m) fo"
    by (simp add: candidates_def t minor_returns)
  have "\<forall>g\<in>set fo. passed_over env t (device_path_of g ?m)"
    using over by (simp add: cand list_all_iff)
  then have scan: "scan_folders env t ?m fo (st1\<lparr>calls := calls st1 @ [Open (stat_path pid)]\<rparr>) =
      (Inr None,
       st1\<lparr>calls := calls st1 @ Open (stat_path pid) # map Stat (candidates fo info)\<rparr>)"
    by (simp add: scan_none cand comp_def)
  show ?thesis
    by (simp only: get_pty_slave_level [OF assms(1,2) t minor_returns] scan prod.case
          sum.case option.case)
qed

lemma cache_after_calls:
  "get_pty_slave_folders env st = (Inr fo, st1) \<Longrightarrow>
   get_pty_slave_folders env' (st1\<lparr>calls := cs\<rparr>) = (Inr fo, st1\<lparr>calls := cs\<rparr>)"
  by (rule folders_cache_hit) (simp add: folders_result_cached)

text \<open>From a depth between 0 and 2 the call returns, with a value or an exception.\<close>

lemma get_pty_slave_returns_at_2: "\<exists>v st'. get_pty_slave env pid 2 st = Some (v, st')"
  by (subst get_pty_slave.simps) (simp split: prod.splits sum.splits option.splits)

lemma get_pty_slave_returns_at_1: "\<exists>v st'. get_pty_slave env pid 1 st = Some (v, st')"
  by (subst get_pty_slave.simps)
     (simp add: get_pty_slave_returns_at_2 split: prod.splits sum.splits option.splits)

lemma get_pty_slave_returns_at_0: "\<exists>v st'. get_pty_slave env pid 0 st = Some (v, st')"
  by (subst get_pty_slave.simps)
     (simp add: get_pty_slave_returns_at_1 split: prod.splits sum.splits option.splits)

lemma get_pty_slave_returns:
  assumes "0 \<le> d" and "d \<le> 2"
  shows "\<exists>v st'. get_pty_slave env pid d st = Some (v, st')"
proof -
  from assms have "d = 0 \<or> d = 1 \<or> d = 2"
    by arith
  then show ?thesis
    using get_pty_slave_returns_at_0 get_pty_slave_returns_at_1 get_pty_slave_returns_at_2
    by blast
qed

subsection \<open>Failures of the lookup\<close>

text \<open>
  C6. When the status record of the given process does not exist, the call raises: it
  never returns a value, \<^verbatim>\<open>None\<close> included. The exception is \<^verbatim>\<open>FileNotFoundError\<close>,
  raised by the one attempt to open the record, whenever the enumeration of the
  directory table, which comes first, has returned.
\<close>

theorem missing_process_raises:
  assumes "files env (stat_path pid) = Inl FileNotFoundError"
  shows "(\<exists>e st'. get_pty_slave env pid d st = Some (Inl e, st')) \<and>
         get_pty_slave env pid d st \<noteq> Some (Inr None, st'') \<and>
         (\<forall>fo st1. get_pty_slave_folders env st = (Inr fo, st1) \<longrightarrow>
            get_pty_slave env pid d st =
              Some (Inl FileNotFoundError, st1\<lparr>calls := calls st1 @ [Open (stat_path pid)]\<rparr>))"
proof -
  have rec: "record_of env pid = Inl FileNotFoundError"
    by (simp add: record_of_def assms)
  obtain r st1 where f: "get_pty_slave_folders env st = (r, st1)"
    by (cases "get_pty_slave_folders env st")
  have raised: "\<exists>e st'. get_pty_slave env pid d st = Some (Inl e, st')"
  proof (cases r)
    case (Inl e)
    with f show ?thesis
      using get_pty_slave_folders_raise [of env st e st1 pid d] by blast
  next
    case (Inr fo)
    with f show ?thesis
      using get_pty_slave_record_raise [of env st fo st1 pid FileNotFoundError d] rec by blast
  qed
  then have "get_pty_slave env pid d st \<noteq> Some (Inr None, st'')"
    by auto
  moreover have "\<forall>fo st1. get_pty_slave_folders env st = (Inr fo, st1) \<longrightarrow>
      get_pty_slave env pid d st =
        Some (Inl FileNotFoundError, st1\<lparr>calls := calls st1 @ [Open (stat_path pid)]\<rparr>)"
    using get_pty_slave_record_raise rec by blast
  ultimately show ?thesis
    using raised by blast
qed

lemma stat_path_91: "stat_path 91 = ''/proc/91/stat''"
  by (simp add: stat_path_def str_int_eval)

theorem missing_process_raises_witness:
  "files example_fs (stat_path 91) = Inl FileNotFoundError \<and>
   get_pty_slave example_fs 91 0 initial =
     Some (Inl FileNotFoundError,
           \<lparr>cache = Some [''/dev/pts'', ''/dev/ttyp''],
            calls = [Open ''/proc/tty/drivers'', Open ''/proc/91/stat'']\<rparr>)"
proof -
  have missing: "files example_fs (stat_path 91) = Inl FileNotFoundError"
    by (simp add: stat_path_91 example_fs_def example_files_def)
  from missing_process_raises [OF missing, of 0 initial initial, THEN conjunct2, THEN conjunct2,
      rule_format, OF example_folders]
  show ?thesis
    using missing by (simp add: stat_path_91)
qed

text \<open>
  C7. When the status record opens and its contents do not match the pattern,
  \<^verbatim>\<open>get_info\<close> raises \<^verbatim>\<open>AttributeError\<close>, which is not \<^verbatim>\<open>FileNotFoundError\<close>, and
  \<^verbatim>\<open>get_pty_slave\<close> passes it on after that one attempt, with no other call made.
\<close>

theorem malformed_record_raises:
  assumes "files env (stat_path pid) = Inr data"
      and "re_search stat_re data = None"
  shows "get_info env pid st =
           (Inl AttributeError, st\<lparr>calls := calls st @ [Open (stat_path pid)]\<rparr>) \<and>
         AttributeError \<noteq> FileNotFoundError \<and>
         (\<forall>fo st1. get_pty_slave_folders env st = (Inr fo, st1) \<longrightarrow>
            get_pty_slave env pid d st =
              Some (Inl AttributeError, st1\<lparr>calls := calls st1 @ [Open (stat_path pid)]\<rparr>))"
proof -
  have rec: "record_of env pid = Inl AttributeError"
    by (simp add: record_of_def search_groupdict_def assms)
  then have "get_info env pid st =
      (Inl AttributeError, st\<lparr>calls := calls st @ [Open (stat_path pid)]\<rparr>)"
    by (simp add: get_info_eq)
  moreover have "\<forall>fo st1. get_pty_slave_folders env st = (Inr fo, st1) \<longrightarrow>
      get_pty_slave env pid d st =
        Some (Inl AttributeError, st1\<lparr>calls := calls st1 @ [Open (stat_path pid)]\<rparr>)"
    using get_pty_slave_record_raise rec by blast
  ultimately show ?thesis
    by simp
qed

lemma stat_path_90: "stat_path 90 = ''/proc/90/stat''"
  by (simp add: stat_path_def str_int_eval)

lemma no_match_90: "re_search stat_re ''not a status record'' = None"
  by code_simp

theorem malformed_record_raises_witness:
  "files example_fs (stat_path 90) = Inr ''not a status record'' \<and>
   re_search stat_re ''not a status record'' = None \<and>
   get_info example_fs 90 initial =
     (Inl AttributeError, \<lparr>cache = None, calls = [Open ''/proc/90/stat'']\<rparr>) \<and>
   get_pty_slave example_fs 90 0 initial =
     Some (Inl AttributeError,
           \<lparr>cache = Some [''/dev/pts'', ''/dev/ttyp''],
            calls = [Open ''/proc/tty/drivers'', Open ''/proc/90/stat'']\<rparr>)"
proof -
  have opens: "files example_fs (stat_path 90) = Inr ''not a status record''"
    by (simp add: stat_path_90 example_fs_def example_files_def)
  note inst = malformed_record_raises [OF opens no_match_90, of initial 0]
  from inst [THEN conjunct1]
  have info: "get_info example_fs 90 initial =
     (Inl AttributeError, \<lparr>cache = None, calls = [Open ''/proc/90/stat'']\<rparr>)"
    by (simp add: stat_path_90 initial_def)
  from inst [THEN conjunct2, THEN conjunct2, rule_format, OF example_folders]
  have "get_pty_slave example_fs 90 0 initial =
     Some (Inl AttributeError,
           \<lparr>cache = Some [''/dev/pts'', ''/dev/ttyp''],
            calls = [Open ''/proc/tty/drivers'', Open ''/proc/90/stat'']\<rparr>)"
    by (simp add: stat_path_90)
  with opens no_match_90 info show ?thesis
    by (intro conjI)
qed

subsection \<open>Records of the example system\<close>

lemma example_record_1:
  "record_of example_fs 1 =
     Inr [(''tty_nr'', ''0''), (''session'', ''1''), (''pgrp'', ''1''), (''ppid'', ''0''),
          (''state'', ''S''), (''comm'', ''init''), (''pid'', ''1'')]"
proof -
  have "stat_path 1 = ''/proc/1/stat''"
    by (simp add: stat_path_def str_int_eval)
  moreover have "search_groupdict stat_re ''1 (init) S 0 1 1 0 -1 4194560 15'' =
     Inr [(''tty_nr'', ''0''), (''session'', ''1''), (''pgrp'', ''1''), (''ppid'', ''0''),
          (''state'', ''S''), (''comm'', ''init''), (''pid'', ''1'')]"
    by code_simp
  ultimately show ?thesis
    by (simp add: record_of_def example_fs_def example_files_def)
qed

lemma example_record_50:
  "record_of example_fs 50 =
     Inr [(''tty_nr'', ''0''), (''session'', ''50''), (''pgrp'', ''50''), (''ppid'', ''1''),
          (''state'', ''S''), (''comm'', ''daemon''), (''pid'', ''50'')]"
proof -
  have "stat_path 50 = ''/proc/50/stat''"
    by (simp add: stat_path_def str_int_eval)
  moreover have "search_groupdict stat_re ''50 (daemon) S 1 50 50 0 -1 4194560 7'' =
     Inr [(''tty_nr'', ''0''), (''session'', ''50''), (''pgrp'', ''50''), (''ppid'', ''1''),
          (''state'', ''S''), (''comm'', ''daemon''), (''pid'', ''50'')]"
    by code_simp
  ultimately show ?thesis
    by (simp add: record_of_def example_fs_def example_files_def)
qed

lemma example_record_80:
  "record_of example_fs 80 =
     Inr [(''tty_nr'', ''0''), (''session'', ''50''), (''pgrp'', ''50''), (''ppid'', ''50''),
          (''state'', ''S''), (''comm'', ''worker''), (''pid'', ''80'')]"
proof -
  have "stat_path 80 = ''/proc/80/stat''"
    by (simp add: stat_path_def str_int_eval)
  moreover have "search_groupdict stat_re ''80 (worker) S 50 50 50 0 -1 4194368 3'' =
     Inr [(''tty_nr'', ''0''), (''session'', ''50''), (''pgrp'', ''50''), (''ppid'', ''50''),
          (''state'', ''S''), (''comm'', ''worker''), (''pid'', ''80'')]"
    by code_simp
  ultimately show ?thesis
    by (simp add: record_of_def example_fs_def example_files_def)
qed

lemma example_record_85:
  "record_of example_fs 85 =
     Inr [(''tty_nr'', ''0''), (''session'', ''85''), (''pgrp'', ''85''), (''ppid'', ''84''),
          (''state'', ''S''), (''comm'', ''orphan''), (''pid'', ''85'')]"
proof -
  have "stat_path 85 = ''/proc/85/stat''"
    by (simp add: stat_path_def str_int_eval)
  moreover have "search_groupdict stat_re ''85 (orphan) S 84 85 85 0 -1 4194368 4'' =
     Inr [(''tty_nr'', ''0''), (''session'', ''85''), (''pgrp'', ''85''), (''ppid'', ''84''),
          (''state'', ''S''), (''comm'', ''orphan''), (''pid'', ''85'')]"
    by code_simp
  ultimately show ?thesis
    by (simp add: record_of_def example_fs_def example_files_def)
qed

lemma example_record_75:
  "record_of example_fs 75 =
     Inr [(''tty_nr'', ''769''), (''session'', ''60''), (''pgrp'', ''75''), (''ppid'', ''60''),
          (''state'', ''S''), (''comm'', ''legacy''), (''pid'', ''75'')]"
proof -
  have "stat_path 75 = ''/proc/75/stat''"
    by (simp add: stat_path_def str_int_eval)
  moreover have "search_groupdict stat_re ''75 (legacy) S 60 75 60 769 75 4194304 1'' =
     Inr [(''tty_nr'', ''769''), (''session'', ''60''), (''pgrp'', ''75''), (''ppid'', ''60''),
          (''state'', ''S''), (''comm'', ''legacy''), (''pid'', ''75'')]"
    by code_simp
  ultimately show ?thesis
    by (simp add: record_of_def example_fs_def example_files_def)
qed

lemma minor_of_0: "calculate_minor_device_number 0 = Inr 0"
  by (simp add: calculate_minor_device_number_def py_rshift_def)

lemma minor_of_769: "calculate_minor_device_number 769 = Inr 1"
  by (simp add: calculate_minor_device_number_def py_rshift_def)

lemma example_no_terminal:
  assumes "int_item info ''tty_nr'' = Inr 0"
  shows "candidates [''/dev/pts'', ''/dev/ttyp''] info = [''/dev/pts/0'', ''/dev/ttyp/0'']"
    and "unmatched example_fs [''/dev/pts'', ''/dev/ttyp''] info"
proof -
  show c: "candidates [''/dev/pts'', ''/dev/ttyp''] info = [''/dev/pts/0'', ''/dev/ttyp/0'']"
    by (simp add: candidates_def assms minor_of_0 device_path_0)
  show "unmatched example_fs [''/dev/pts'', ''/dev/ttyp''] info"
    by (simp add: unmatched_def assms c passed_over_def example_fs_def example_rdevs_def)
qed

lemmas int_item_eval = int_item_def getitem_def py_int_eval

lemma example_record_76:
  "record_of example_fs 76 =
     Inr [(''tty_nr'', ''770''), (''session'', ''60''), (''pgrp'', ''76''), (''ppid'', ''60''),
          (''state'', ''S''), (''comm'', ''old''), (''pid'', ''76'')]"
proof -
  have "stat_path 76 = ''/proc/76/stat''"
    by (simp add: stat_path_def str_int_eval)
  moreover have "search_groupdict stat_re ''76 (old) S 60 76 60 770 76 4194304 1'' =
     Inr [(''tty_nr'', ''770''), (''session'', ''60''), (''pgrp'', ''76''), (''ppid'', ''60''),
          (''state'', ''S''), (''comm'', ''old''), (''pid'', ''76'')]"
    by code_simp
  ultimately show ?thesis
    by (simp add: record_of_def example_fs_def example_files_def)
qed

lemma minor_of_770: "calculate_minor_device_number 770 = Inr 2"
  by (simp add: calculate_minor_device_number_def py_rshift_def)

lemma device_path_2: "device_path_of folder 2 = folder @ ''/2''"
  by (simp add: device_path_of_def str_int_eval)

subsection \<open>The match scan of \<^verbatim>\<open>get_pty_slave\<close>\<close>

text \<open>
  C4. With the directory table that the enumeration returned, the terminal identifier of
  the record and the minor number decoded from it: \<^verbatim>\<open>get_pty_slave\<close> returns the
  candidate \<^verbatim>\<open>folder/minor\<close> of the first folder, in the order of the table, whose
  \<^verbatim>\<open>st_rdev\<close> equals the whole terminal identifier, every candidate before it being
  absent or a node of another device; the \<^verbatim>\<open>stat\<close> of that candidate is its last system
  call. Conversely, a path that the call returns is that candidate, unless no candidate
  of this record was accepted and the path is what the call for the parent returned.
\<close>

theorem get_pty_slave_returns_first_accepted:
  assumes "get_pty_slave_folders env st = (Inr folders, st1)"
      and "record_of env pid = Inr info"
      and "int_item info ''tty_nr'' = Inr tty_nr"
      and "calculate_minor_device_number tty_nr = Inr minor"
  shows "(\<forall>pre f post.
            folders = pre @ f # post \<and> rdevs env (device_path_of f minor) = Inr tty_nr \<and>
            (\<forall>g\<in>set pre. passed_over env tty_nr (device_path_of g minor)) \<longrightarrow>
            get_pty_slave env pid d st =
              Some (Inr (Some (device_path_of f minor)),
                    st1\<lparr>calls := calls st1 @ Open (stat_path pid) #
                           map (\<lambda>g. Stat (device_path_of g minor)) (pre @ [f])\<rparr>)) \<and>
         (\<forall>p st'.
            get_pty_slave env pid d st = Some (Inr (Some p), st') \<longrightarrow>
            (\<exists>pre f post.
               folders = pre @ f # post \<and> p = device_path_of f minor \<and>
               rdevs env p = Inr tty_nr \<and>
               (\<forall>g\<in>set pre. passed_over env tty_nr (device_path_of g minor))) \<or>
            (d \<noteq> 2 \<and> (\<forall>g\<in>set folders. passed_over env tty_nr (device_path_of g minor)) \<and>
             (\<exists>ppid. int_item info ''ppid'' = Inr ppid \<and>
                get_pty_slave env ppid (d + 1)
                  (st1\<lparr>calls := calls st1 @ Open (stat_path pid) #
                         map (\<lambda>g. Stat (device_path_of g minor)) folders\<rparr>) =
                  Some (Inr (Some p), st'))))"
proof (intro conjI allI impI)
  fix pre f post
  assume a: "folders = pre @ f # post \<and> rdevs env (device_path_of f minor) = Inr tty_nr \<and>
      (\<forall>g\<in>set pre. passed_over env tty_nr (device_path_of g minor))"
  let ?st2 = "st1\<lparr>calls := calls st1 @ [Open (stat_path pid)]\<rparr>"
  from a have "scan_folders env tty_nr minor folders ?st2 =
      (Inr (Some (device_path_of f minor)),
       ?st2\<lparr>calls := calls ?st2 @ map (\<lambda>g. Stat (device_path_of g minor)) (pre @ [f])\<rparr>)"
    using scan_accept [of folders pre f post env minor tty_nr ?st2] by blast
  then show "get_pty_slave env pid d st =
      Some (Inr (Some (device_path_of f minor)),
            st1\<lparr>calls := calls st1 @ Open (stat_path pid) #
                   map (\<lambda>g. Stat (device_path_of g minor)) (pre @ [f])\<rparr>)"
    by (simp add: get_pty_slave_level [OF assms])
next
  fix p st'
  assume ret: "get_pty_slave env pid d st = Some (Inr (Some p), st')"
  let ?st2 = "st1\<lparr>calls := calls st1 @ [Open (stat_path pid)]\<rparr>"
  let ?first = "\<exists>pre f post.
      folders = pre @ f # post \<and> p = device_path_of f minor \<and> rdevs env p = Inr tty_nr \<and>
      (\<forall>g\<in>set pre. passed_over env tty_nr (device_path_of g minor))"
  let ?parent = "d \<noteq> 2 \<and> (\<forall>g\<in>set folders. passed_over env tty_nr (device_path_of g minor)) \<and>
      (\<exists>ppid. int_item info ''ppid'' = Inr ppid \<and>
         get_pty_slave env ppid (d + 1)
           (st1\<lparr>calls := calls st1 @ Open (stat_path pid) #
                  map (\<lambda>g. Stat (device_path_of g minor)) folders\<rparr>) =
           Some (Inr (Some p), st'))"
  obtain r st3 where scan: "scan_folders env tty_nr minor folders ?st2 = (r, st3)"
    by (cases "scan_folders env tty_nr minor folders ?st2")
  show "?first \<or> ?parent"
  proof (cases r)
    case (Inl e)
    with ret scan show ?thesis
      by (simp add: get_pty_slave_level [OF assms])
  next
    case (Inr found)
    show ?thesis
    proof (cases found)
      case (Some q)
      with Inr ret scan have "q = p"
        by (simp add: get_pty_slave_level [OF assms])
      with Some Inr scan have "scan_folders env tty_nr minor folders ?st2 = (Inr (Some p), st3)"
        by simp
      then have ?first
        by (rule scan_found)
      then show ?thesis ..
    next
      case None
      with Inr scan have fallen: "scan_folders env tty_nr minor folders ?st2 = (Inr None, st3)"
        by simp
      then have over: "\<forall>g\<in>set folders. passed_over env tty_nr (device_path_of g minor)"
        by (rule scan_fallen_through)
      from scan_none [OF over, of ?st2] fallen
      have st3: "st3 = st1\<lparr>calls := calls st1 @ Open (stat_path pid) #
          map (\<lambda>g. Stat (device_path_of g minor)) folders\<rparr>"
        by simp
      from ret fallen have depth: "d \<noteq> 2"
        by (auto simp: get_pty_slave_level [OF assms])
      with ret fallen have "\<exists>ppid. int_item info ''ppid'' = Inr ppid \<and>
          get_pty_slave env ppid (d + 1) st3 = Some (Inr (Some p), st')"
        by (auto simp: get_pty_slave_level [OF assms] split: sum.splits)
      with over depth st3 have ?parent
        by simp
      then show ?thesis ..
    qed
  qed
qed

theorem get_pty_slave_returns_first_accepted_witness:
  "passed_over example_fs 770 ''/dev/pts/2'' \<and>
   rdevs example_fs ''/dev/ttyp/2'' = Inr 770 \<and>
   get_pty_slave example_fs 76 0 initial =
     Some (Inr (Some ''/dev/ttyp/2''),
           \<lparr>cache = Some [''/dev/pts'', ''/dev/ttyp''],
            calls = [Open ''/proc/tty/drivers'', Open ''/proc/76/stat'',
                     Stat ''/dev/pts/2'', Stat ''/dev/ttyp/2'']\<rparr>)"
proof -
  have tty: "int_item [(''tty_nr'', ''770''), (''session'', ''60''), (''pgrp'', ''76''),
      (''ppid'', ''60''), (''state'', ''S''), (''comm'', ''old''), (''pid'', ''76'')]
      ''tty_nr'' = Inr 770"
    by (simp add: int_item_eval)
  have over: "passed_over example_fs 770 ''/dev/pts/2''"
    by (simp add: passed_over_def example_fs_def example_rdevs_def)
  have node: "rdevs example_fs ''/dev/ttyp/2'' = Inr 770"
    by (simp add: example_fs_def example_rdevs_def)
  have path: "stat_path 76 = ''/proc/76/stat''"
    by (simp add: stat_path_def str_int_eval)
  have hyp: "[''/dev/pts'', ''/dev/ttyp''] = [''/dev/pts''] @ ''/dev/ttyp'' # [] \<and>
      rdevs example_fs (device_path_of ''/dev/ttyp'' 2) = Inr 770 \<and>
      (\<forall>g\<in>set [''/dev/pts'']. passed_over example_fs 770 (device_path_of g 2))"
    using over node by (simp add: device_path_2)
  from get_pty_slave_returns_first_accepted [OF example_folders example_record_76 tty
      minor_of_770, of 0, THEN conjunct1, rule_format, OF hyp]
  have "get_pty_slave example_fs 76 0 initial =
     Some (Inr (Some ''/dev/ttyp/2''),
           \<lparr>cache = Some [''/dev/pts'', ''/dev/ttyp''],
            calls = [Open ''/proc/tty/drivers'', Open ''/proc/76/stat'',
                     Stat ''/dev/pts/2'', Stat ''/dev/ttyp/2'']\<rparr>)"
    by (simp add: path device_path_2)
  with over node show ?thesis
    by (intro conjI)
qed

subsection \<open>Failures inside the scan\<close>

text \<open>
  C10. In the scan, a candidate whose \<^verbatim>\<open>stat\<close> raises \<^verbatim>\<open>FileNotFoundError\<close> is passed
  over and the scan goes on with the folders after it. Any other exception of that
  \<^verbatim>\<open>stat\<close> is the result of \<^verbatim>\<open>get_pty_slave\<close>, and the \<^verbatim>\<open>stat\<close> that raised is the last
  system call: no folder after it is looked at and no parent is read.
\<close>

theorem stat_failure_aborts_lookup:
  assumes "get_pty_slave_folders env st = (Inr fo, st1)"
      and "record_of env pid = Inr info"
      and "int_item info ''tty_nr'' = Inr t"
      and "calculate_minor_device_number t = Inr m"
      and "fo = pre @ f # post"
      and "\<forall>g\<in>set pre. passed_over env t (device_path_of g m)"
      and "rdevs env (device_path_of f m) = Inl e"
  shows "(e \<noteq> FileNotFoundError \<longrightarrow>
            get_pty_slave env pid d st =
              Some (Inl e,
                    st1\<lparr>calls := calls st1 @ Open (stat_path pid) #
                           map (\<lambda>g. Stat (device_path_of g m)) (pre @ [f])\<rparr>)) \<and>
         (e = FileNotFoundError \<longrightarrow>
            scan_folders env t m fo st2 =
              scan_folders env t m post
                (st2\<lparr>calls := calls st2 @ map (\<lambda>g. Stat (device_path_of g m)) (pre @ [f])\<rparr>))"
proof (intro conjI impI)
  assume "e \<noteq> FileNotFoundError"
  then have "scan_folders env t m fo (st1\<lparr>calls := calls st1 @ [Open (stat_path pid)]\<rparr>) =
      (Inl e,
       st1\<lparr>calls := calls st1 @ Open (stat_path pid) #
              map (\<lambda>g. Stat (device_path_of g m)) (pre @ [f])\<rparr>)"
    using scan_abort [OF assms(5) assms(7) _ assms(6)] by simp
  then show "get_pty_slave env pid d st =
      Some (Inl e,
            st1\<lparr>calls := calls st1 @ Open (stat_path pid) #
                   map (\<lambda>g. Stat (device_path_of g m)) (pre @ [f])\<rparr>)"
    by (simp add: get_pty_slave_level [OF assms(1-4)])
next
  assume "e = FileNotFoundError"
  with assms(6,7) have "\<forall>g\<in>set (pre @ [f]). passed_over env t (device_path_of g m)"
    by (simp add: passed_over_def)
  from scan_prefix [OF this, of post st2] show "scan_folders env t m fo st2 =
      scan_folders env t m post
        (st2\<lparr>calls := calls st2 @ map (\<lambda>g. Stat (device_path_of g m)) (pre @ [f])\<rparr>)"
    by (simp add: assms(5))
qed

theorem stat_failure_aborts_lookup_witness:
  "passed_over example_fs 769 ''/dev/pts/1'' \<and>
   rdevs example_fs ''/dev/ttyp/1'' = Inl PermissionError \<and>
   get_pty_slave example_fs 75 0 initial =
     Some (Inl PermissionError,
           \<lparr>cache = Some [''/dev/pts'', ''/dev/ttyp''],
            calls = [Open ''/proc/tty/drivers'', Open ''/proc/75/stat'',
                     Stat ''/dev/pts/1'', Stat ''/dev/ttyp/1'']\<rparr>)"
proof -
  have tty: "int_item [(''tty_nr'', ''769''), (''session'', ''60''), (''pgrp'', ''75''),
      (''ppid'', ''60''), (''state'', ''S''), (''comm'', ''legacy''), (''pid'', ''75'')]
      ''tty_nr'' = Inr 769"
    by (simp add: int_item_eval)
  have split: "[''/dev/pts'', ''/dev/ttyp''] = [''/dev/pts''] @ ''/dev/ttyp'' # []"
    by simp
  have over: "passed_over example_fs 769 ''/dev/pts/1''"
    by (simp add: passed_over_def example_fs_def example_rdevs_def)
  then have pre: "\<forall>g\<in>set [''/dev/pts'']. passed_over example_fs 769 (device_path_of g 1)"
    by (simp add: device_path_1)
  have denied: "rdevs example_fs ''/dev/ttyp/1'' = Inl PermissionError"
    by (simp add: example_fs_def example_rdevs_def)
  then have f: "rdevs example_fs (device_path_of ''/dev/ttyp'' 1) = Inl PermissionError"
    by (simp add: device_path_1)
  have path: "stat_path 75 = ''/proc/75/stat''"
    by (simp add: stat_path_def str_int_eval)
  from stat_failure_aborts_lookup [OF example_folders example_record_75 tty minor_of_769
      split pre f, of 0 initial, THEN conjunct1]
  have "get_pty_slave example_fs 75 0 initial =
     Some (Inl PermissionError,
           \<lparr>cache = Some [''/dev/pts'', ''/dev/ttyp''],
            calls = [Open ''/proc/tty/drivers'', Open ''/proc/75/stat'',
                     Stat ''/dev/pts/1'', Stat ''/dev/ttyp/1'']\<rparr>)"
    by (simp add: path device_path_1)
  with over denied show ?thesis
    by (intro conjI)
qed

subsection \<open>The walk to the parents\<close>

lemma parent_raise:
  assumes "get_pty_slave_folders env st = (Inr fo, st1)"
      and "record_of env pid = Inr info"
      and "unmatched env fo info"
      and "d \<noteq> 2"
      and "int_item info ''ppid'' = Inr ppid"
      and "files env (stat_path ppid) = Inl e"
  shows "get_pty_slave env pid d st =
           Some (Inl e,
                 st1\<lparr>calls := calls st1 @ Open (stat_path pid) #
                        map Stat (candidates fo info) @ [Open (stat_path ppid)]\<rparr>)"
proof -
  let ?st = "st1\<lparr>calls := calls st1 @ Open (stat_path pid) # map Stat (candidates fo info)\<rparr>"
  have "record_of env ppid = Inl e"
    by (simp add: record_of_def assms(6))
  from get_pty_slave_record_raise [OF cache_after_calls [OF assms(1)] this]
  have "get_pty_slave env ppid (d + 1) ?st =
      Some (Inl e, ?st\<lparr>calls := calls ?st @ [Open (stat_path ppid)]\<rparr>)" .
  then show ?thesis
    by (simp add: unmatched_level [OF assms(1-3)] assms(4,5))
qed

text \<open>
  C9. When the record of a process is read and none of its candidates matches, at any
  depth other than 2, the record of its parent is opened next; if that fails (the
  parent has exited, or the parent is process 0), the exception of that attempt is the
  result of the whole call, which does not return \<^verbatim>\<open>None\<close>.
\<close>

theorem parent_lookup_failure_propagates:
  assumes "get_pty_slave_folders env st = (Inr fo, st1)"
      and "record_of env pid = Inr info"
      and "unmatched env fo info"
      and "d \<noteq> 2"
      and "int_item info ''ppid'' = Inr ppid"
      and "files env (stat_path ppid) = Inl FileNotFoundError"
  shows "get_pty_slave env pid d st =
           Some (Inl FileNotFoundError,
                 st1\<lparr>calls := calls st1 @ Open (stat_path pid) #
                        map Stat (candidates fo info) @ [Open (stat_path ppid)]\<rparr>)"
  using assms by (rule parent_raise)

theorem parent_lookup_failure_propagates_witness:
  "record_of example_fs 1 =
     Inr [(''tty_nr'', ''0''), (''session'', ''1''), (''pgrp'', ''1''), (''ppid'', ''0''),
          (''state'', ''S''), (''comm'', ''init''), (''pid'', ''1'')] \<and>
   files example_fs (stat_path 0) = Inl FileNotFoundError \<and>
   get_pty_slave example_fs 1 0 initial =
     Some (Inl FileNotFoundError,
           \<lparr>cache = Some [''/dev/pts'', ''/dev/ttyp''],
            calls = [Open ''/proc/tty/drivers'', Open ''/proc/1/stat'',
                     Stat ''/dev/pts/0'', Stat ''/dev/ttyp/0'', Open ''/proc/0/stat'']\<rparr>)"
proof -
  let ?info = "[(''tty_nr'', ''0''), (''session'', ''1''), (''pgrp'', ''1''),
      (''ppid'', ''0''), (''state'', ''S''), (''comm'', ''init''), (''pid'', ''1'')]"
  have tty: "int_item ?info ''tty_nr'' = Inr 0"
    by (simp add: int_item_eval)
  have parent: "int_item ?info ''ppid'' = Inr 0"
    by (simp add: int_item_eval)
  have p0: "stat_path 0 = ''/proc/0/stat''"
    by (simp add: stat_path_def str_int_eval)
  have p1: "stat_path 1 = ''/proc/1/stat''"
    by (simp add: stat_path_def str_int_eval)
  have gone: "files example_fs (stat_path 0) = Inl FileNotFoundError"
    by (simp add: p0 example_fs_def example_files_def)
  have depth: "(0::int) \<noteq> 2"
    by simp
  from parent_lookup_failure_propagates [OF example_folders example_record_1
      example_no_terminal(2) [OF tty] depth parent gone]
  have "get_pty_slave example_fs 1 0 initial =
     Some (Inl FileNotFoundError,
           \<lparr>cache = Some [''/dev/pts'', ''/dev/ttyp''],
            calls = [Open ''/proc/tty/drivers'', Open ''/proc/1/stat'',
                     Stat ''/dev/pts/0'', Stat ''/dev/ttyp/0'', Open ''/proc/0/stat'']\<rparr>)"
    by (simp add: p0 p1 example_no_terminal(1) [OF tty])
  with example_record_1 gone show ?thesis
    by (intro conjI)
qed

text \<open>
  A process without a terminal whose parent has exited: its record is read, no candidate
  matches, and the attempt to read the record of the parent raises
  \<^verbatim>\<open>FileNotFoundError\<close>, after two lookups.
\<close>

lemma orphan_without_terminal_raises:
  "unmatched example_fs [''/dev/pts'', ''/dev/ttyp'']
     [(''tty_nr'', ''0''), (''session'', ''85''), (''pgrp'', ''85''), (''ppid'', ''84''),
      (''state'', ''S''), (''comm'', ''orphan''), (''pid'', ''85'')] \<and>
   get_pty_slave example_fs 85 0 initial =
     Some (Inl FileNotFoundError,
           \<lparr>cache = Some [''/dev/pts'', ''/dev/ttyp''],
            calls = [Open ''/proc/tty/drivers'', Open ''/proc/85/stat'',
                     Stat ''/dev/pts/0'', Stat ''/dev/ttyp/0'', Open ''/proc/84/stat'']\<rparr>) \<and>
   get_pty_slave example_fs 85 0 initial \<noteq>
     Some (Inr None,
           \<lparr>cache = Some [''/dev/pts'', ''/dev/ttyp''],
            calls = [Open ''/proc/tty/drivers'', Open ''/proc/85/stat'',
                     Stat ''/dev/pts/0'', Stat ''/dev/ttyp/0'', Open ''/proc/84/stat'']\<rparr>)"
proof -
  let ?info = "[(''tty_nr'', ''0''), (''session'', ''85''), (''pgrp'', ''85''),
      (''ppid'', ''84''), (''state'', ''S''), (''comm'', ''orphan''), (''pid'', ''85'')]"
  have tty: "int_item ?info ''tty_nr'' = Inr 0"
    by (simp add: int_item_eval)
  have parent: "int_item ?info ''ppid'' = Inr 84"
    by (simp add: int_item_eval)
  have p84: "stat_path 84 = ''/proc/84/stat''"
    by (simp add: stat_path_def str_int_eval)
  have p85: "stat_path 85 = ''/proc/85/stat''"
    by (simp add: stat_path_def str_int_eval)
  have gone: "files example_fs (stat_path 84) = Inl FileNotFoundError"
    by (simp add: p84 example_fs_def example_files_def)
  have depth: "(0::int) \<noteq> 2"
    by simp
  from parent_raise [OF example_folders example_record_85
      example_no_terminal(2) [OF tty] depth parent gone]
  have run: "get_pty_slave example_fs 85 0 initial =
     Some (Inl FileNotFoundError,
           \<lparr>cache = Some [''/dev/pts'', ''/dev/ttyp''],
            calls = [Open ''/proc/tty/drivers'', Open ''/proc/85/stat'',
                     Stat ''/dev/pts/0'', Stat ''/dev/ttyp/0'', Open ''/proc/84/stat'']\<rparr>)"
    by (simp add: p84 p85 example_no_terminal(1) [OF tty])
  then have "get_pty_slave example_fs 85 0 initial \<noteq>
     Some (Inr None,
           \<lparr>cache = Some [''/dev/pts'', ''/dev/ttyp''],
            calls = [Open ''/proc/tty/drivers'', Open ''/proc/85/stat'',
                     Stat ''/dev/pts/0'', Stat ''/dev/ttyp/0'', Open ''/proc/84/stat'']\<rparr>)"
    by simp
  with example_no_terminal(2) [OF tty] run show ?thesis
    by (intro conjI)
qed

text \<open>
  When the records of the process, of its parent and of its grandparent are all read and
  every candidate of each of them is passed over (it is absent or a node of another
  device), the call returns \<^verbatim>\<open>None\<close>, and the files it has opened after the enumeration
  of the directory table are exactly these three records, in this order.
\<close>

lemma three_readable_records_return_none:
  assumes "get_pty_slave_folders env st = (Inr fo, st1)"
      and "record_of env pid = Inr info0"
      and "unmatched env fo info0"
      and "int_item info0 ''ppid'' = Inr ppid1"
      and "record_of env ppid1 = Inr info1"
      and "unmatched env fo info1"
      and "int_item info1 ''ppid'' = Inr ppid2"
      and "record_of env ppid2 = Inr info2"
      and "unmatched env fo info2"
  shows "\<exists>st'. get_pty_slave env pid 0 st = Some (Inr None, st') \<and>
           calls st' =
             calls st1 @
             Open (stat_path pid) # map Stat (candidates fo info0) @
             Open (stat_path ppid1) # map Stat (candidates fo info1) @
             Open (stat_path ppid2) # map Stat (candidates fo info2) \<and>
           opened_paths (calls st') =
             opened_paths (calls st1) @ [stat_path pid, stat_path ppid1, stat_path ppid2]"
proof -
  let ?a = "st1\<lparr>calls := calls st1 @ Open (stat_path pid) # map Stat (candidates fo info0)\<rparr>"
  let ?b = "?a\<lparr>calls := calls ?a @ Open (stat_path ppid1) # map Stat (candidates fo info1)\<rparr>"
  let ?c = "?b\<lparr>calls := calls ?b @ Open (stat_path ppid2) # map Stat (candidates fo info2)\<rparr>"
  have fa: "get_pty_slave_folders env ?a = (Inr fo, ?a)"
    by (rule cache_after_calls [OF assms(1)])
  have fb: "get_pty_slave_folders env ?b = (Inr fo, ?b)"
    using cache_after_calls [OF assms(1)] by simp
  have "get_pty_slave env pid 0 st = get_pty_slave env ppid1 1 ?a"
    using unmatched_level [OF assms(1-3), of 0] assms(4) by simp
  also have "\<dots> = get_pty_slave env ppid2 2 ?b"
    using unmatched_level [OF fa assms(5,6), of 1] assms(7) by simp
  also have "\<dots> = Some (Inr None, ?c)"
    using unmatched_level [OF fb assms(8,9), of 2] by simp
  finally have run: "get_pty_slave env pid 0 st = Some (Inr None, ?c)" .
  have trace: "calls ?c =
      calls st1 @
      Open (stat_path pid) # map Stat (candidates fo info0) @
      Open (stat_path ppid1) # map Stat (candidates fo info1) @
      Open (stat_path ppid2) # map Stat (candidates fo info2)"
    by simp
  have "opened_paths (calls ?c) =
      opened_paths (calls st1) @ [stat_path pid, stat_path ppid1, stat_path ppid2]"
    by (simp add: opened_paths_append opened_paths_stats)
  with run trace show ?thesis
    by blast
qed

lemma three_readable_records_return_none_example:
  "\<exists>st'. get_pty_slave example_fs 80 0 initial = Some (Inr None, st') \<and>
     calls st' =
       [Open ''/proc/tty/drivers'',
        Open ''/proc/80/stat'', Stat ''/dev/pts/0'', Stat ''/dev/ttyp/0'',
        Open ''/proc/50/stat'', Stat ''/dev/pts/0'', Stat ''/dev/ttyp/0'',
        Open ''/proc/1/stat'', Stat ''/dev/pts/0'', Stat ''/dev/ttyp/0''] \<and>
     opened_paths (calls st') =
       [''/proc/tty/drivers'', ''/proc/80/stat'', ''/proc/50/stat'', ''/proc/1/stat'']"
proof -
  let ?i80 = "[(''tty_nr'', ''0''), (''session'', ''50''), (''pgrp'', ''50''),
      (''ppid'', ''50''), (''state'', ''S''), (''comm'', ''worker''), (''pid'', ''80'')]"
  let ?i50 = "[(''tty_nr'', ''0''), (''session'', ''50''), (''pgrp'', ''50''),
      (''ppid'', ''1''), (''state'', ''S''), (''comm'', ''daemon''), (''pid'', ''50'')]"
  let ?i1 = "[(''tty_nr'', ''0''), (''session'', ''1''), (''pgrp'', ''1''),
      (''ppid'', ''0''), (''state'', ''S''), (''comm'', ''init''), (''pid'', ''1'')]"
  have t80: "int_item ?i80 ''tty_nr'' = Inr 0" by (simp add: int_item_eval)
  have t50: "int_item ?i50 ''tty_nr'' = Inr 0" by (simp add: int_item_eval)
  have t1: "int_item ?i1 ''tty_nr'' = Inr 0" by (simp add: int_item_eval)
  have q80: "int_item ?i80 ''ppid'' = Inr 50" by (simp add: int_item_eval)
  have q50: "int_item ?i50 ''ppid'' = Inr 1" by (simp add: int_item_eval)
  have p80: "stat_path 80 = ''/proc/80/stat''" by (simp add: stat_path_def str_int_eval)
  have p50: "stat_path 50 = ''/proc/50/stat''" by (simp add: stat_path_def str_int_eval)
  have p1: "stat_path 1 = ''/proc/1/stat''" by (simp add: stat_path_def str_int_eval)
  from three_readable_records_return_none [OF example_folders
      example_record_80 example_no_terminal(2) [OF t80] q80
      example_record_50 example_no_terminal(2) [OF t50] q50
      example_record_1 example_no_terminal(2) [OF t1]]
  show ?thesis
    by (simp add: p80 p50 p1 example_no_terminal(1) [OF t80] example_no_terminal(1) [OF t50]
          example_no_terminal(1) [OF t1])
qed

subsection \<open>A process whose ancestors end before the depth bound\<close>

text \<open>
  C5 fails on the code. A daemon whose parent is init has no terminal: its record and
  the record of init are read and no candidate matches, and the third lookup is the
  record of process 0, which does not exist. The call raises \<^verbatim>\<open>FileNotFoundError\<close>
  where \<^verbatim>\<open>None\<close> is the documented result.
\<close>

theorem daemon_of_init_raises:
  "unmatched example_fs [''/dev/pts'', ''/dev/ttyp'']
     [(''tty_nr'', ''0''), (''session'', ''50''), (''pgrp'', ''50''), (''ppid'', ''1''),
      (''state'', ''S''), (''comm'', ''daemon''), (''pid'', ''50'')] \<and>
   unmatched example_fs [''/dev/pts'', ''/dev/ttyp'']
     [(''tty_nr'', ''0''), (''session'', ''1''), (''pgrp'', ''1''), (''ppid'', ''0''),
      (''state'', ''S''), (''comm'', ''init''), (''pid'', ''1'')] \<and>
   get_pty_slave example_fs 50 0 initial =
     Some (Inl FileNotFoundError,
           \<lparr>cache = Some [''/dev/pts'', ''/dev/ttyp''],
            calls = [Open ''/proc/tty/drivers'',
                     Open ''/proc/50/stat'', Stat ''/dev/pts/0'', Stat ''/dev/ttyp/0'',
                     Open ''/proc/1/stat'', Stat ''/dev/pts/0'', Stat ''/dev/ttyp/0'',
                     Open ''/proc/0/stat'']\<rparr>)"
proof -
  let ?i50 = "[(''tty_nr'', ''0''), (''session'', ''50''), (''pgrp'', ''50''),
      (''ppid'', ''1''), (''state'', ''S''), (''comm'', ''daemon''), (''pid'', ''50'')]"
  let ?i1 = "[(''tty_nr'', ''0''), (''session'', ''1''), (''pgrp'', ''1''),
      (''ppid'', ''0''), (''state'', ''S''), (''comm'', ''init''), (''pid'', ''1'')]"
  let ?a = "\<lparr>cache = Some [''/dev/pts'', ''/dev/ttyp''],
      calls = [Open ''/proc/tty/drivers'', Open ''/proc/50/stat'',
               Stat ''/dev/pts/0'', Stat ''/dev/ttyp/0'']\<rparr>"
  have t50: "int_item ?i50 ''tty_nr'' = Inr 0" by (simp add: int_item_eval)
  have t1: "int_item ?i1 ''tty_nr'' = Inr 0" by (simp add: int_item_eval)
  have q50: "int_item ?i50 ''ppid'' = Inr 1" by (simp add: int_item_eval)
  have q1: "int_item ?i1 ''ppid'' = Inr 0" by (simp add: int_item_eval)
  have p50: "stat_path 50 = ''/proc/50/stat''" by (simp add: stat_path_def str_int_eval)
  have p1: "stat_path 1 = ''/proc/1/stat''" by (simp add: stat_path_def str_int_eval)
  have p0: "stat_path 0 = ''/proc/0/stat''" by (simp add: stat_path_def str_int_eval)
  have gone: "files example_fs (stat_path 0) = Inl FileNotFoundError"
    by (simp add: p0 example_fs_def example_files_def)
  have u50: "unmatched example_fs [''/dev/pts'', ''/dev/ttyp''] ?i50"
    by (rule example_no_terminal(2) [OF t50])
  have u1: "unmatched example_fs [''/dev/pts'', ''/dev/ttyp''] ?i1"
    by (rule example_no_terminal(2) [OF t1])
  have first: "get_pty_slave example_fs 50 0 initial = get_pty_slave example_fs 1 1 ?a"
    using unmatched_level [OF example_folders example_record_50 u50, of 0] q50
    by (simp add: p50 example_no_terminal(1) [OF t50])
  have fa: "get_pty_slave_folders example_fs ?a = (Inr [''/dev/pts'', ''/dev/ttyp''], ?a)"
    by (rule folders_cache_hit) simp
  have depth: "(1::int) \<noteq> 2"
    by simp
  from parent_raise [OF fa example_record_1 u1 depth q1 gone]
  have "get_pty_slave example_fs 1 1 ?a =
     Some (Inl FileNotFoundError,
           \<lparr>cache = Some [''/dev/pts'', ''/dev/ttyp''],
            calls = [Open ''/proc/tty/drivers'',
                     Open ''/proc/50/stat'', Stat ''/dev/pts/0'', Stat ''/dev/ttyp/0'',
                     Open ''/proc/1/stat'', Stat ''/dev/pts/0'', Stat ''/dev/ttyp/0'',
                     Open ''/proc/0/stat'']\<rparr>)"
    by (simp add: p1 p0 example_no_terminal(1) [OF t1])
  with first have "get_pty_slave example_fs 50 0 initial =
     Some (Inl FileNotFoundError,
           \<lparr>cache = Some [''/dev/pts'', ''/dev/ttyp''],
            calls = [Open ''/proc/tty/drivers'',
                     Open ''/proc/50/stat'', Stat ''/dev/pts/0'', Stat ''/dev/ttyp/0'',
                     Open ''/proc/1/stat'', Stat ''/dev/pts/0'', Stat ''/dev/ttyp/0'',
                     Open ''/proc/0/stat'']\<rparr>)"
    by simp
  with u50 u1 show ?thesis
    by (intro conjI)
qed

end
